theory Spec2Isabelle
  imports
    Complex_Main
    "HOL-Library.List_Lexorder"
    "HOL-Library.AList"
begin

section \<open>The article store of the SEO agent (\<open>mcp_servers/articles_server.py\<close>)\<close>

text \<open>
  The store keeps one JSON file per article in a directory and offers five tools:
  \<open>save_article\<close>, \<open>get_articles\<close>, \<open>get_article\<close>, \<open>update_article_status\<close> and
  \<open>delete_article\<close>; identifiers come from \<open>slugify\<close>. Each Python function is embedded
  as a HOL function of the same name. What the Python reads from its environment is an
  argument of the model: the directory (a list of named files, in the order in which the
  file system enumerates them), the clock readings of \<open>datetime.now()\<close>, the place at
  which the file system lists a newly created file, and the Unicode tables of the
  interpreter.
\<close>

subsection \<open>Python strings\<close>

text \<open>
  A Python \<open>str\<close> is a sequence of Unicode code points; the model is a list of natural
  numbers, one per code point, of any length and with any code point. \<open>ascii\<close> turns a
  literal of the source into such a list. The hyphen is \<open>U+002D\<close>.
\<close>

type_synonym str = "nat list"

definition ascii :: "string \<Rightarrow> str" where
  "ascii s = map of_char s"

definition hyphen :: nat where
  "hyphen = 45"

subsection \<open>The Unicode tables of the interpreter\<close>

text \<open>
  \<open>text.lower()\<close> and the classes \<open>\w\<close> and \<open>\s\<close> of \<open>re\<close> (on a \<open>str\<close> pattern:
  the Unicode-aware ones) are computed from the Unicode database that the interpreter
  ships, which is no part of the repository and changes with the version of Python.
  They are arguments of the model. \<open>str_lower\<close> acts on the whole string: Python's
  lowercasing is not a map over the code points (\<open>U+0130\<close> becomes two code points,
  and what \<open>U+03A3\<close> becomes depends on its neighbours).
\<close>

record ucd =
  str_lower :: "str \<Rightarrow> str"
  is_word :: "nat \<Rightarrow> bool"
  is_space :: "nat \<Rightarrow> bool"

text \<open>
  On ASCII every version of Python agrees: \<open>lower\<close> turns \<open>A\<close> to \<open>Z\<close> into \<open>a\<close> to
  \<open>z\<close>, \<open>\w\<close> holds the digits, the letters and the underscore, \<open>\s\<close> holds
  \<open>0x09\<close> to \<open>0x0D\<close> and \<open>0x1C\<close> to \<open>0x20\<close>. \<open>ascii_conformant\<close> says so of a table.
  \<open>basic_ucd\<close> is the smallest such table, with no word character or whitespace
  beyond ASCII; it serves as sample data.
\<close>

definition ascii_lower_char :: "nat \<Rightarrow> nat" where
  "ascii_lower_char c = (if 65 \<le> c \<and> c \<le> 90 then c + 32 else c)"

definition ascii_word :: "nat \<Rightarrow> bool" where
  "ascii_word c = ((48 \<le> c \<and> c \<le> 57) \<or> (65 \<le> c \<and> c \<le> 90) \<or> c = 95 \<or> (97 \<le> c \<and> c \<le> 122))"

definition ascii_space :: "nat \<Rightarrow> bool" where
  "ascii_space c = ((9 \<le> c \<and> c \<le> 13) \<or> (28 \<le> c \<and> c \<le> 32))"

definition ascii_conformant :: "ucd \<Rightarrow> bool" where
  "ascii_conformant u =
     ((\<forall>s. list_all (\<lambda>c. c < 128) s \<longrightarrow> str_lower u s = map ascii_lower_char s)
      \<and> (\<forall>c. c < 128 \<longrightarrow> is_word u c = ascii_word c \<and> is_space u c = ascii_space c))"

definition basic_ucd :: ucd where
  "basic_ucd = \<lparr>str_lower = map ascii_lower_char, is_word = ascii_word, is_space = ascii_space\<rparr>"

text \<open>
  Two more facts of Python's lowercasing, in every version of the Unicode database.
  \<^item> \<open>lower_stable\<close>: lowercasing yields lowercase; a string made of code points that
  occur in a result of \<open>lower\<close>, and of hyphens, is left alone by \<open>lower\<close>. (The results
  of \<open>lower\<close> hold no \<open>U+03A3\<close> and no code point with a lowercase mapping of its own.)
  \<^item> \<open>lower_keeps_nonword\<close>: lowercasing makes no word character out of a code point
  that is none (the code points it changes are letters, or symbols that stay symbols).
\<close>

definition lower_stable :: "ucd \<Rightarrow> bool" where
  "lower_stable u =
     (\<forall>x y. set y \<subseteq> insert hyphen (set (str_lower u x)) \<longrightarrow> str_lower u y = y)"

definition lower_keeps_nonword :: "ucd \<Rightarrow> bool" where
  "lower_keeps_nonword u =
     (\<forall>s. list_all (\<lambda>c. \<not> is_word u c) s \<longrightarrow> list_all (\<lambda>c. \<not> is_word u c) (str_lower u s))"

subsection \<open>Regular expressions and \<open>strip\<close>\<close>

text \<open>
  \<open>re.sub(pattern, repl, text)\<close> replaces the leftmost non-overlapping matches, scanning
  from the left. \<open>re_sub_class P repl\<close> is the case of a pattern that is one character
  class \<open>[...]\<close>: every character of the class is a match. \<open>re_sub_plus P repl\<close> is the
  case \<open>X+\<close>: a match starts at a character of the class and, being greedy, takes the
  whole run; the scan resumes behind it.
\<close>

fun re_sub_class :: "(nat \<Rightarrow> bool) \<Rightarrow> str \<Rightarrow> str \<Rightarrow> str" where
  "re_sub_class P repl [] = []"
| "re_sub_class P repl (c # cs) =
     (if P c then repl @ re_sub_class P repl cs else c # re_sub_class P repl cs)"

function re_sub_plus :: "(nat \<Rightarrow> bool) \<Rightarrow> str \<Rightarrow> str \<Rightarrow> str" where
  "re_sub_plus P repl [] = []"
| "re_sub_plus P repl (c # cs) =
     (if P c then repl @ re_sub_plus P repl (dropWhile P cs) else c # re_sub_plus P repl cs)"
  by pat_completeness auto
termination
  by (relation "measure (\<lambda>(P, repl, s). length s)")
     (auto simp: length_dropWhile_le less_Suc_eq_le)

text \<open>\<open>text.strip(chars)\<close> drops the characters of \<open>chars\<close> from both ends.\<close>

definition str_strip :: "str \<Rightarrow> str \<Rightarrow> str" where
  "str_strip chars s =
     rev (dropWhile (\<lambda>c. c \<in> set chars) (rev (dropWhile (\<lambda>c. c \<in> set chars) s)))"

subsection \<open>\<open>slugify\<close>\<close>

text \<open>
  \<^verbatim>\<open>
  def slugify(text: str) -> str:
      text = text.lower()
      text = re.sub(r"[^\w\s-]", "", text)
      text = re.sub(r"\s+", "-", text)
      text = re.sub(r"-+", "-", text)
      return text.strip("-")
  \<close>
\<close>

definition slugify :: "ucd \<Rightarrow> str \<Rightarrow> str" where
  "slugify u text0 =
     (let text1 = str_lower u text0;
          text2 = re_sub_class (\<lambda>c. \<not> (is_word u c \<or> is_space u c \<or> c = hyphen)) [] text1;
          text3 = re_sub_plus (is_space u) [hyphen] text2;
          text4 = re_sub_plus (\<lambda>c. c = hyphen) [hyphen] text3
      in str_strip [hyphen] text4)"

subsection \<open>The slug policy, as the specification words it\<close>

text \<open>
  The specification gives five steps: lowercase the input; strip the characters that are
  neither word characters, whitespace, nor hyphen; collapse runs of whitespace to a single
  hyphen; collapse runs of hyphens to one; trim leading and trailing hyphens.
  \<open>slugify_spec\<close> follows these words, with no regular expression: \<open>collapse_runs\<close>
  walks the text and emits one hyphen where a run ends.
\<close>

definition retained :: "ucd \<Rightarrow> nat \<Rightarrow> bool" where
  "retained u c = (is_word u c \<or> is_space u c \<or> c = hyphen)"

fun collapse_runs :: "(nat \<Rightarrow> bool) \<Rightarrow> nat \<Rightarrow> str \<Rightarrow> str" where
  "collapse_runs P h [] = []"
| "collapse_runs P h [c] = (if P c then [h] else [c])"
| "collapse_runs P h (c # d # cs) =
     (if P c then (if P d then collapse_runs P h (d # cs) else h # collapse_runs P h (d # cs))
      else c # collapse_runs P h (d # cs))"

fun trim_leading :: "str \<Rightarrow> str" where
  "trim_leading [] = []"
| "trim_leading (c # cs) = (if c = hyphen then trim_leading cs else c # cs)"

fun trim_trailing :: "str \<Rightarrow> str" where
  "trim_trailing [] = []"
| "trim_trailing (c # cs) =
     (let rest = trim_trailing cs in if c = hyphen \<and> rest = [] then [] else c # rest)"

definition slugify_spec :: "ucd \<Rightarrow> str \<Rightarrow> str" where
  "slugify_spec u s =
     trim_trailing (trim_leading
       (collapse_runs (\<lambda>c. c = hyphen) hyphen
         (collapse_runs (is_space u) hyphen
           (filter (retained u) (str_lower u s)))))"

subsection \<open>JSON values, files and the directory\<close>

text \<open>
  \<open>json.load\<close> yields any JSON value, not only an object; the store calls \<open>.get\<close> on
  whatever it has loaded. An object keeps its keys in insertion order, as a Python
  \<open>dict\<close> does.
\<close>

datatype json =
    JNull
  | JBool bool
  | JInt int
  | JFloat real
  | JStr str
  | JList "json list"
  | JObj "(str \<times> json) list"

datatype py_error =
  JSONDecodeError | AttributeError | TypeError | UnicodeEncodeError | ValueError | OSError

text \<open>
  A file of the directory either parses to a JSON value or makes \<open>open\<close>/\<open>json.load\<close>
  raise (invalid JSON, invalid encoding, an unreadable entry).
\<close>

datatype file_content = Unparseable | Parsed json

fun json_load :: "file_content \<Rightarrow> py_error + json" where
  "json_load Unparseable = Inl JSONDecodeError"
| "json_load (Parsed v) = Inr v"

text \<open>
  \<open>article.get(key)\<close>: only a \<open>dict\<close> has the method; a missing key gives \<open>None\<close>,
  here \<^const>\<open>None\<close>.
\<close>

fun dict_get :: "json \<Rightarrow> str \<Rightarrow> py_error + json option" where
  "dict_get (JObj kvs) key = Inr (map_of kvs key)"
| "dict_get v key = Inl AttributeError"

text \<open>\<open>a.get(key, default)\<close>.\<close>

definition dict_get_default :: "json \<Rightarrow> str \<Rightarrow> json \<Rightarrow> py_error + json" where
  "dict_get_default a key dflt =
     (case dict_get a key of
        Inl e \<Rightarrow> Inl e
      | Inr None \<Rightarrow> Inr dflt
      | Inr (Some v) \<Rightarrow> Inr v)"

text \<open>
  \<open>article[key] = value\<close>: an existing key keeps its place, a new key goes last. The
  other JSON values do not support string keys.
\<close>

fun dict_set :: "json \<Rightarrow> str \<Rightarrow> json \<Rightarrow> py_error + json" where
  "dict_set (JObj kvs) key v = Inr (JObj (AList.update key v kvs))"
| "dict_set a key v = Inl TypeError"

text \<open>Truthiness, for \<open>not article.get("publishedAt")\<close> (\<open>None\<close> is false).\<close>

fun truthy :: "json \<Rightarrow> bool" where
  "truthy JNull = False"
| "truthy (JBool b) = b"
| "truthy (JInt i) = (i \<noteq> 0)"
| "truthy (JFloat r) = (r \<noteq> 0)"
| "truthy (JStr s) = (s \<noteq> [])"
| "truthy (JList xs) = (xs \<noteq> [])"
| "truthy (JObj kvs) = (kvs \<noteq> [])"

fun py_bool :: "json option \<Rightarrow> bool" where
  "py_bool None = False"
| "py_bool (Some v) = truthy v"

text \<open>
  The directory \<open>ARTICLES_DIR\<close>, restricted to the entries that \<open>glob("*.json")\<close>
  yields, in the order in which it yields them. A file name occurs once.
\<close>

type_synonym directory = "(str \<times> file_content) list"

definition ARTICLES_DIR :: str where
  "ARTICLES_DIR = ascii ''articles_data''"

text \<open>
  \<open>open(file_path, "w")\<close> raises when the operating system refuses the file name; the
  store does not catch this. The model is that of Linux with a UTF-8 file system
  encoding, for a directory that exists, is writable and holds no subdirectory; the
  refusals left are those that the name alone causes:
  \<^item> a lone surrogate outside \<open>U+DC80\<close> to \<open>U+DCFF\<close> cannot be encoded
    (\<open>UnicodeEncodeError\<close>; those of that range stand for one byte each);
  \<^item> a null character is refused by Python (\<open>ValueError\<close>);
  \<^item> a slash makes the name a path into a subdirectory, which does not exist
    (\<open>FileNotFoundError\<close>, an \<open>OSError\<close>);
  \<^item> a name of more than \<open>NAME_MAX\<close> bytes is refused with \<open>ENAMETOOLONG\<close>
    (an \<open>OSError\<close>).
\<close>

definition escaped_byte :: "nat \<Rightarrow> bool" where
  "escaped_byte c = (56448 \<le> c \<and> c \<le> 56575)"

definition lone_surrogate :: "nat \<Rightarrow> bool" where
  "lone_surrogate c = (55296 \<le> c \<and> c \<le> 57343 \<and> \<not> escaped_byte c)"

definition utf8_length :: "nat \<Rightarrow> nat" where
  "utf8_length c =
     (if c < 128 \<or> escaped_byte c then 1 else if c < 2048 then 2 else if c < 65536 then 3 else 4)"

definition NAME_MAX :: nat where
  "NAME_MAX = 255"

definition open_w_error :: "str \<Rightarrow> py_error option" where
  "open_w_error file_name =
     (if list_ex lone_surrogate file_name then Some UnicodeEncodeError
      else if 0 \<in> set file_name then Some ValueError
      else if 47 \<in> set file_name then Some OSError
      else if NAME_MAX < sum_list (map utf8_length file_name) then Some OSError
      else None)"

text \<open>
  \<open>open(file_path, "w")\<close> followed by \<open>json.dump\<close>, once the name is accepted: an
  existing file is truncated and rewritten where it is; a new file appears at the place
  \<open>dir_pos\<close> of the enumeration, which the file system chooses. What \<open>json.dump\<close>
  writes, \<open>json.load\<close> reads back.
\<close>

definition rewrite_file :: "str \<Rightarrow> file_content \<Rightarrow> directory \<Rightarrow> directory" where
  "rewrite_file file_path new files =
     map (\<lambda>(name, old). if name = file_path then (name, new) else (name, old)) files"

definition write_file :: "nat \<Rightarrow> str \<Rightarrow> file_content \<Rightarrow> directory \<Rightarrow> directory" where
  "write_file dir_pos file_path new files =
     (if file_path \<in> fst ` set files then rewrite_file file_path new files
      else take dir_pos files @ (file_path, new) # drop dir_pos files)"

text \<open>\<open>file_path.unlink()\<close>.\<close>

definition unlink :: "str \<Rightarrow> directory \<Rightarrow> directory" where
  "unlink file_path files = filter (\<lambda>(name, old). name \<noteq> file_path) files"

text \<open>
  \<open>sorted(paths, reverse=True)\<close>: Python sorts stably and keeps the order of equal
  elements also when reversing. The paths share their directory, so they compare as
  their file names do, code point by code point.
\<close>

definition sorted_reverse :: "(str \<times> 'a) list \<Rightarrow> (str \<times> 'a) list" where
  "sorted_reverse files = rev (sort_key fst (rev files))"

subsection \<open>Clock readings\<close>

text \<open>
  \<open>datetime.now()\<close> is a naive local time. \<open>format_d w n\<close> is \<open>"%0wd" % n\<close>.
  \<open>strftime('%Y%m%d%H%M%S')\<close> is that of the C library: \<open>%Y\<close> is the year in
  decimal with no padding (glibc), so a year below 1000 has fewer than four digits; the
  other fields have two digits. \<open>isoformat()\<close> is Python's own and pads the year to
  four digits; it omits the fraction when the microsecond is zero.
\<close>

record datetime =
  year :: nat
  month :: nat
  day :: nat
  hour :: nat
  minute :: nat
  second :: nat
  microsecond :: nat

definition valid_datetime :: "datetime \<Rightarrow> bool" where
  "valid_datetime d =
     (1 \<le> year d \<and> year d \<le> 9999 \<and> 1 \<le> month d \<and> month d \<le> 12 \<and> 1 \<le> day d \<and> day d \<le> 31
      \<and> hour d < 24 \<and> minute d < 60 \<and> second d < 60 \<and> microsecond d < 1000000)"

definition digit_char :: "nat \<Rightarrow> nat" where
  "digit_char d = 48 + d"

fun decimal :: "nat \<Rightarrow> str" where
  "decimal n = (if n < 10 then [digit_char n] else decimal (n div 10) @ [digit_char (n mod 10)])"

declare decimal.simps [simp del]

definition format_d :: "nat \<Rightarrow> nat \<Rightarrow> str" where
  "format_d w n = replicate (w - length (decimal n)) (digit_char 0) @ decimal n"

definition strftime_YmdHMS :: "datetime \<Rightarrow> str" where
  "strftime_YmdHMS d =
     decimal (year d) @ format_d 2 (month d) @ format_d 2 (day d)
     @ format_d 2 (hour d) @ format_d 2 (minute d) @ format_d 2 (second d)"

definition isoformat :: "datetime \<Rightarrow> str" where
  "isoformat d =
     format_d 4 (year d) @ ascii ''-'' @ format_d 2 (month d) @ ascii ''-'' @ format_d 2 (day d)
     @ ascii ''T'' @ format_d 2 (hour d) @ ascii '':'' @ format_d 2 (minute d)
     @ ascii '':'' @ format_d 2 (second d)
     @ (if microsecond d = 0 then [] else ascii ''.'' @ format_d 6 (microsecond d))"

subsection \<open>What a tool returns\<close>

text \<open>
  Every tool returns a string or raises. The strings are a fixed message, the
  \<open>json.dumps\<close> of a record, or the listing \<open>Found n articles:\<close> with one entry per
  record; an entry shows five values of the record.
\<close>

record summary =
  line_status :: json
  line_title :: json
  line_slug :: json
  line_keyword :: json
  line_created :: json

datatype reply = Message str | Json_text json | Listing "summary list"

subsection \<open>\<open>save_article\<close>\<close>

text \<open>
  \<open>schema_markup or {...}\<close>: the default also replaces an empty \<open>dict\<close>, which is
  falsy.
\<close>

definition schema_or_default :: "(str \<times> json) list option \<Rightarrow> str \<Rightarrow> str \<Rightarrow> json" where
  "schema_or_default schema_markup title meta_description =
     (let dflt = JObj
            [(ascii ''@context'', JStr (ascii ''https://schema.org'')),
             (ascii ''@type'', JStr (ascii ''Article'')),
             (ascii ''headline'', JStr title),
             (ascii ''description'', JStr meta_description)]
      in case schema_markup of
           None \<Rightarrow> dflt
         | Some kvs \<Rightarrow> if kvs = [] then dflt else JObj kvs)"

text \<open>The record that \<open>save_article\<close> builds.\<close>

definition new_article ::
  "str \<Rightarrow> str \<Rightarrow> str \<Rightarrow> str \<Rightarrow> str \<Rightarrow> str \<Rightarrow> str list \<Rightarrow> str \<Rightarrow> (str \<times> json) list option
   \<Rightarrow> str \<Rightarrow> json" where
  "new_article article_id slug title content meta_description primary_keyword secondary_keywords
       image_url schema_markup now =
     JObj
       [(ascii ''id'', JStr article_id),
        (ascii ''slug'', JStr slug),
        (ascii ''title'', JStr title),
        (ascii ''metaDescription'', JStr meta_description),
        (ascii ''content'', JStr content),
        (ascii ''primaryKeyword'', JStr primary_keyword),
        (ascii ''secondaryKeywords'', JList (map JStr secondary_keywords)),
        (ascii ''imageUrl'', JStr image_url),
        (ascii ''imageAlt'', JStr (title @ ascii '' - Premium Gin and Tonic Guide'')),
        (ascii ''schemaMarkup'', schema_or_default schema_markup title meta_description),
        (ascii ''status'', JStr (ascii ''published'')),
        (ascii ''createdAt'', JStr now),
        (ascii ''publishedAt'', JStr now)]"

text \<open>
  The clock is read twice: \<open>clock_id\<close> for the identifier, \<open>clock_now\<close> for the
  timestamps. When \<open>open\<close> raises, the tool raises and the directory is as before.
\<close>

definition save_article ::
  "ucd \<Rightarrow> str \<Rightarrow> str \<Rightarrow> str \<Rightarrow> str \<Rightarrow> str list \<Rightarrow> str \<Rightarrow> (str \<times> json) list option
   \<Rightarrow> datetime \<Rightarrow> datetime \<Rightarrow> nat \<Rightarrow> directory \<Rightarrow> (py_error + reply) \<times> directory" where
  "save_article u title content meta_description primary_keyword secondary_keywords image_url
       schema_markup clock_id clock_now dir_pos files =
     (let slug = slugify u title;
          article_id = slug @ ascii ''-'' @ strftime_YmdHMS clock_id;
          now = isoformat clock_now;
          article = new_article article_id slug title content meta_description primary_keyword
                      secondary_keywords image_url schema_markup now;
          file_name = article_id @ ascii ''.json''
      in case open_w_error file_name of
           Some e \<Rightarrow> (Inl e, files)
         | None \<Rightarrow>
             (Inr (Message (ascii ''Article saved successfully!'' @ [10] @ ascii ''ID: '' @ article_id
                    @ [10] @ ascii ''Slug: '' @ slug
                    @ [10] @ ascii ''Path: '' @ ARTICLES_DIR @ ascii ''/'' @ file_name)),
              write_file dir_pos file_name (Parsed article) files))"

subsection \<open>\<open>get_articles\<close>\<close>

text \<open>\<open>status == "all" or article.get("status") == status\<close>, with its short circuit.\<close>

definition status_matches :: "str \<Rightarrow> json \<Rightarrow> py_error + bool" where
  "status_matches status article =
     (if status = ascii ''all'' then Inr True
      else (case dict_get article (ascii ''status'') of
              Inl e \<Rightarrow> Inl e
            | Inr v \<Rightarrow> Inr (v = Some (JStr status))))"

text \<open>
  The loop of \<open>get_articles\<close>. An exception in the body is caught and the loop goes on
  with the next file; the test of \<open>limit\<close> comes after the \<open>append\<close>.
\<close>

fun collect_articles :: "str \<Rightarrow> int \<Rightarrow> directory \<Rightarrow> json list \<Rightarrow> json list" where
  "collect_articles status limit [] articles = articles"
| "collect_articles status limit ((file_path, file) # rest) articles =
     (case json_load file of
        Inl e \<Rightarrow> collect_articles status limit rest articles
      | Inr article \<Rightarrow>
          (case status_matches status article of
             Inl e \<Rightarrow> collect_articles status limit rest articles
           | Inr matches \<Rightarrow>
               if matches then
                 (if limit \<le> int (length (articles @ [article])) then articles @ [article]
                  else collect_articles status limit rest (articles @ [article]))
               else collect_articles status limit rest articles))"

text \<open>
  \<open>x[:10]\<close> for the \<open>createdAt\<close> of an entry: strings and lists can be sliced, the
  other values raise (an object raises \<open>KeyError\<close> instead from Python 3.12 on).
\<close>

fun slice10 :: "json \<Rightarrow> py_error + json" where
  "slice10 (JStr s) = Inr (JStr (take 10 s))"
| "slice10 (JList xs) = Inr (JList (take 10 xs))"
| "slice10 v = Inl TypeError"

text \<open>One entry of the listing; this code is outside the \<open>try\<close>.\<close>

definition format_line :: "json \<Rightarrow> py_error + summary" where
  "format_line a =
     (case dict_get_default a (ascii ''status'') (JStr (ascii ''unknown'')) of Inl e \<Rightarrow> Inl e | Inr st \<Rightarrow>
      (case dict_get_default a (ascii ''title'') (JStr (ascii ''Untitled'')) of Inl e \<Rightarrow> Inl e | Inr ti \<Rightarrow>
      (case dict_get_default a (ascii ''slug'') (JStr (ascii ''N/A'')) of Inl e \<Rightarrow> Inl e | Inr sl \<Rightarrow>
      (case dict_get_default a (ascii ''primaryKeyword'') (JStr (ascii ''N/A'')) of Inl e \<Rightarrow> Inl e | Inr kw \<Rightarrow>
      (case dict_get_default a (ascii ''createdAt'') (JStr (ascii ''N/A'')) of Inl e \<Rightarrow> Inl e | Inr cr \<Rightarrow>
      (case slice10 cr of Inl e \<Rightarrow> Inl e | Inr cr10 \<Rightarrow>
         Inr \<lparr>line_status = st, line_title = ti, line_slug = sl,
              line_keyword = kw, line_created = cr10\<rparr>))))))"

fun format_lines :: "json list \<Rightarrow> py_error + summary list" where
  "format_lines [] = Inr []"
| "format_lines (a # as) =
     (case format_line a of
        Inl e \<Rightarrow> Inl e
      | Inr l \<Rightarrow> (case format_lines as of Inl e \<Rightarrow> Inl e | Inr ls \<Rightarrow> Inr (l # ls)))"

definition get_articles :: "str \<Rightarrow> int \<Rightarrow> directory \<Rightarrow> py_error + reply" where
  "get_articles status limit files =
     (let articles = collect_articles status limit (sorted_reverse files) []
      in if articles = [] then Inr (Message (ascii ''No articles found.''))
         else (case format_lines articles of
                 Inl e \<Rightarrow> Inl e
               | Inr ls \<Rightarrow> Inr (Listing ls)))"

subsection \<open>\<open>get_article\<close>\<close>

fun get_article :: "str \<Rightarrow> directory \<Rightarrow> py_error + reply" where
  "get_article slug [] = Inr (Message (ascii ''Article not found: '' @ slug))"
| "get_article slug ((file_path, file) # rest) =
     (case json_load file of
        Inl e \<Rightarrow> get_article slug rest
      | Inr article \<Rightarrow>
          (case dict_get article (ascii ''slug'') of
             Inl e \<Rightarrow> get_article slug rest
           | Inr v \<Rightarrow>
               if v = Some (JStr slug) then Inr (Json_text article)
               else get_article slug rest))"

subsection \<open>\<open>update_article_status\<close>\<close>

text \<open>
  The mutation of the matching record:
  \<^verbatim>\<open>
  article["status"] = status
  if status == "published" and not article.get("publishedAt"):
      article["publishedAt"] = datetime.now().isoformat()
  \<close>
\<close>

definition set_status :: "str \<Rightarrow> datetime \<Rightarrow> json \<Rightarrow> py_error + json" where
  "set_status status clock_now article =
     (case dict_set article (ascii ''status'') (JStr status) of
        Inl e \<Rightarrow> Inl e
      | Inr article1 \<Rightarrow>
          if status = ascii ''published'' then
            (case dict_get article1 (ascii ''publishedAt'') of
               Inl e \<Rightarrow> Inl e
             | Inr v \<Rightarrow>
                 if \<not> py_bool v
                 then dict_set article1 (ascii ''publishedAt'') (JStr (isoformat clock_now))
                 else Inr article1)
          else Inr article1)"

text \<open>
  The scan runs over the files that \<open>glob\<close> yields (third list) and writes into the
  directory (last argument); it returns at the first match.
\<close>

fun update_scan ::
  "str \<Rightarrow> str \<Rightarrow> datetime \<Rightarrow> directory \<Rightarrow> directory \<Rightarrow> (py_error + reply) \<times> directory" where
  "update_scan slug status clock_now [] dir =
     (Inr (Message (ascii ''Article not found: '' @ slug)), dir)"
| "update_scan slug status clock_now ((file_path, file) # rest) dir =
     (case json_load file of
        Inl e \<Rightarrow> update_scan slug status clock_now rest dir
      | Inr article \<Rightarrow>
          (case dict_get article (ascii ''slug'') of
             Inl e \<Rightarrow> update_scan slug status clock_now rest dir
           | Inr v \<Rightarrow>
               if v = Some (JStr slug) then
                 (case set_status status clock_now article of
                    Inl e \<Rightarrow> update_scan slug status clock_now rest dir
                  | Inr article' \<Rightarrow>
                      (Inr (Message (ascii ''Article '' @ [39] @ slug @ [39]
                              @ ascii '' status updated to: '' @ status)),
                       rewrite_file file_path (Parsed article') dir))
               else update_scan slug status clock_now rest dir))"

definition update_article_status ::
  "str \<Rightarrow> str \<Rightarrow> datetime \<Rightarrow> directory \<Rightarrow> (py_error + reply) \<times> directory" where
  "update_article_status slug status clock_now files = update_scan slug status clock_now files files"

subsection \<open>\<open>delete_article\<close>\<close>

fun delete_scan :: "str \<Rightarrow> directory \<Rightarrow> directory \<Rightarrow> (py_error + reply) \<times> directory" where
  "delete_scan slug [] dir = (Inr (Message (ascii ''Article not found: '' @ slug)), dir)"
| "delete_scan slug ((file_path, file) # rest) dir =
     (case json_load file of
        Inl e \<Rightarrow> delete_scan slug rest dir
      | Inr article \<Rightarrow>
          (case dict_get article (ascii ''slug'') of
             Inl e \<Rightarrow> delete_scan slug rest dir
           | Inr v \<Rightarrow>
               if v = Some (JStr slug) then
                 (Inr (Message (ascii ''Article deleted: '' @ slug)), unlink file_path dir)
               else delete_scan slug rest dir))"

definition delete_article :: "str \<Rightarrow> directory \<Rightarrow> (py_error + reply) \<times> directory" where
  "delete_article slug files = delete_scan slug files files"

subsection \<open>Notions of the specification\<close>

text \<open>
  A stored record \<^emph>\<open>carries\<close> a slug when its file parses to an object whose
  \<open>slug\<close> is that string. \<open>first_match\<close> is the first such file of the enumeration.
\<close>

fun carries_slug :: "str \<Rightarrow> file_content \<Rightarrow> bool" where
  "carries_slug slug (Parsed (JObj kvs)) = (map_of kvs (ascii ''slug'') = Some (JStr slug))"
| "carries_slug slug file = False"

definition first_match :: "str \<Rightarrow> directory \<Rightarrow> (str \<times> file_content) option" where
  "first_match slug files = find (\<lambda>(name, file). carries_slug slug file) files"

text \<open>The files that the enumeration yields before the file of a given name.\<close>

definition enumerated_before :: "str \<Rightarrow> directory \<Rightarrow> directory" where
  "enumerated_before file_name files = takeWhile (\<lambda>(name, file). name \<noteq> file_name) files"

text \<open>The identifier and the file name of a new article, as \<open>save_article\<close> forms them.\<close>

definition new_id :: "ucd \<Rightarrow> str \<Rightarrow> datetime \<Rightarrow> str" where
  "new_id u title clock_id = slugify u title @ ascii ''-'' @ strftime_YmdHMS clock_id"

definition new_file_name :: "ucd \<Rightarrow> str \<Rightarrow> datetime \<Rightarrow> str" where
  "new_file_name u title clock_id = new_id u title clock_id @ ascii ''.json''"

text \<open>The value that the record stored under a file name has for a key.\<close>

definition stored_field :: "directory \<Rightarrow> str \<Rightarrow> str \<Rightarrow> json option" where
  "stored_field files name key =
     (case map_of files name of
        Some (Parsed (JObj kvs)) \<Rightarrow> map_of kvs key
      | _ \<Rightarrow> None)"

text \<open>A sequence of calls of \<open>update_article_status\<close>, each with its own clock reading.\<close>

fun update_many :: "(str \<times> str \<times> datetime) list \<Rightarrow> directory \<Rightarrow> directory" where
  "update_many [] files = files"
| "update_many ((slug, status, clock_now) # calls) files =
     update_many calls (snd (update_article_status slug status clock_now files))"


text \<open>
  A file is parseable when \<open>json.load\<close> returns; \<open>stored_records\<close> are the values of
  the parseable files, in the order of the files.
\<close>

fun parseable :: "str \<times> file_content \<Rightarrow> bool" where
  "parseable (name, Unparseable) = False"
| "parseable (name, Parsed a) = True"

fun stored_records :: "directory \<Rightarrow> json list" where
  "stored_records [] = []"
| "stored_records ((name, Unparseable) # rest) = stored_records rest"
| "stored_records ((name, Parsed a) # rest) = a # stored_records rest"

text \<open>
  Well-formed store-assigned values: a pattern is matched character by character,
  \<open>d\<close> standing for a decimal digit. An identifier is the slug, a hyphen and fourteen
  digits; a timestamp is ISO 8601 to the second, with an optional fraction of six digits.
\<close>

definition is_digit :: "nat \<Rightarrow> bool" where
  "is_digit c = (48 \<le> c \<and> c \<le> 57)"

fun matches_pattern :: "string \<Rightarrow> str \<Rightarrow> bool" where
  "matches_pattern [] [] = True"
| "matches_pattern (p # ps) (c # cs) =
     ((if p = CHR ''d'' then is_digit c else c = of_char p) \<and> matches_pattern ps cs)"
| "matches_pattern ps cs = False"

definition is_article_id :: "str \<Rightarrow> str \<Rightarrow> bool" where
  "is_article_id slug s =
     (take (length slug) s = slug \<and> matches_pattern ''-dddddddddddddd'' (drop (length slug) s))"

definition is_iso_timestamp :: "str \<Rightarrow> bool" where
  "is_iso_timestamp s =
     (matches_pattern ''dddd-dd-ddTdd:dd:dd'' s \<or> matches_pattern ''dddd-dd-ddTdd:dd:dd.dddddd'' s)"


text \<open>Sample data: a record as \<open>save_article\<close> lays it out, and a clock reading.\<close>

definition sample_article :: "str \<Rightarrow> str \<Rightarrow> str \<Rightarrow> str \<Rightarrow> json" where
  "sample_article slug stamp content status =
     JObj [(ascii ''id'', JStr (slug @ ascii ''-'' @ stamp)),
           (ascii ''slug'', JStr slug),
           (ascii ''title'', JStr (ascii ''Best Gin'')),
           (ascii ''content'', JStr content),
           (ascii ''primaryKeyword'', JStr (ascii ''gin'')),
           (ascii ''status'', JStr status),
           (ascii ''createdAt'', JStr (ascii ''2024-01-01T12:00:00'')),
           (ascii ''publishedAt'', JStr (ascii ''2024-01-01T12:00:00''))]"


definition sample_clock :: datetime where
  "sample_clock =
     \<lparr>year = 2024, month = 3, day = 9, hour = 8, minute = 5, second = 7, microsecond = 0\<rparr>"

section \<open>Properties of \<open>slugify\<close>\<close>

subsection \<open>Literals\<close>

lemma ascii_inject [simp]: "ascii s = ascii t \<longleftrightarrow> s = t"
proof -
  have "inj (of_char :: char \<Rightarrow> nat)"
    by (rule injI) simp
  then show ?thesis
    unfolding ascii_def by (rule inj_map_eq_map)
qed

lemma ascii_Nil [simp]: "ascii [] = []"
  by (simp add: ascii_def)

lemma ascii_eq_Nil [simp]: "ascii s = [] \<longleftrightarrow> s = []" "[] = ascii s \<longleftrightarrow> s = []"
  by (auto simp: ascii_def)

lemma ascii_append: "ascii (s @ t) = ascii s @ ascii t"
  by (simp add: ascii_def)

lemma ascii_join [simp]:
  "ascii s @ ascii t = ascii (s @ t)" "ascii s @ ascii t @ x = ascii (s @ t) @ x"
  by (simp_all add: ascii_def)

lemma ascii_hyphen: "ascii ''-'' = [hyphen]"
  by (simp add: ascii_def hyphen_def)

subsection \<open>The regular expressions against the worded policy\<close>

lemma re_sub_class_filter: "re_sub_class P [] s = filter (\<lambda>c. \<not> P c) s"
  by (induction s) auto

lemma re_sub_plus_collapse: "re_sub_plus P [h] s = collapse_runs P h s"
  by (induction P h s rule: collapse_runs.induct) auto

lemma dropWhile_trim_leading: "dropWhile (\<lambda>c. c = hyphen) s = trim_leading s"
  by (induction s) auto

lemma trim_trailing_Nil_iff: "trim_trailing s = [] \<longleftrightarrow> (\<forall>c\<in>set s. c = hyphen)"
  by (induction s) (auto simp: Let_def)

lemma dropWhile_rev_trim_trailing:
  "dropWhile (\<lambda>c. c = hyphen) (rev s) = rev (trim_trailing s)"
  by (induction s) (auto simp: dropWhile_append Let_def trim_trailing_Nil_iff)

lemma str_strip_trim: "str_strip [hyphen] s = trim_trailing (trim_leading s)"
proof -
  have "str_strip [hyphen] s
      = rev (dropWhile (\<lambda>c. c = hyphen) (rev (dropWhile (\<lambda>c. c = hyphen) s)))"
    by (simp add: str_strip_def)
  also have "\<dots> = trim_trailing (dropWhile (\<lambda>c. c = hyphen) s)"
    by (simp only: dropWhile_rev_trim_trailing rev_rev_ident)
  finally show ?thesis
    by (simp only: dropWhile_trim_leading)
qed

lemma slugify_refines: "slugify u s = slugify_spec u s"
  by (simp add: slugify_def slugify_spec_def re_sub_class_filter
      re_sub_plus_collapse str_strip_trim retained_def [abs_def])

subsection \<open>What a slug looks like\<close>

lemma re_sub_class_id: "\<forall>c\<in>set s. \<not> P c \<Longrightarrow> re_sub_class P repl s = s"
  by (induction s) auto

lemma set_collapse_runs: "set (collapse_runs P h s) \<subseteq> {c \<in> set s. \<not> P c} \<union> {h}"
  by (induction P h s rule: collapse_runs.induct) auto

lemma set_re_sub_plus: "set (re_sub_plus P [h] s) \<subseteq> {c \<in> set s. \<not> P c} \<union> {h}"
  by (simp only: re_sub_plus_collapse set_collapse_runs)

lemma hd_re_sub_after_run:
  "dropWhile P cs = [] \<or> \<not> P (hd (re_sub_plus P repl (dropWhile P cs)))"
proof (cases "dropWhile P cs")
  case Nil
  then show ?thesis by simp
next
  case (Cons d ds)
  have "dropWhile P cs \<noteq> []"
    by (simp add: Cons)
  then have "\<not> P (hd (dropWhile P cs))"
    by (rule hd_dropWhile)
  then have "\<not> P d"
    by (simp add: Cons)
  then show ?thesis
    by (simp add: Cons)
qed

lemma successively_re_sub_plus:
  assumes "P h"
  shows "successively (\<lambda>a b. \<not> (a = h \<and> b = h)) (re_sub_plus P [h] s)"
proof (induction s rule: length_induct)
  case (1 s)
  show ?case
  proof (cases s)
    case Nil
    then show ?thesis by simp
  next
    case (Cons c cs)
    show ?thesis
    proof (cases "P c")
      case True
      define rest where "rest = dropWhile P cs"
      define out where "out = re_sub_plus P [h] rest"
      have "length rest < length s"
        by (simp add: Cons rest_def length_dropWhile_le less_Suc_eq_le)
      with 1 have ih: "successively (\<lambda>a b. \<not> (a = h \<and> b = h)) out"
        unfolding out_def by blast
      have "rest = [] \<or> \<not> P (hd out)"
        unfolding rest_def out_def by (rule hd_re_sub_after_run)
      moreover have "rest = [] \<Longrightarrow> out = []"
        by (simp add: out_def)
      ultimately have "out = [] \<or> hd out \<noteq> h"
        using assms by blast
      with ih have "successively (\<lambda>a b. \<not> (a = h \<and> b = h)) (h # out)"
        by (simp add: successively_Cons)
      moreover have "re_sub_plus P [h] s = h # out"
        by (simp add: Cons True rest_def out_def)
      ultimately show ?thesis by simp
    next
      case False
      define out where "out = re_sub_plus P [h] cs"
      have "length cs < length s"
        by (simp add: Cons)
      with 1 have ih: "successively (\<lambda>a b. \<not> (a = h \<and> b = h)) out"
        unfolding out_def by blast
      from False assms have "c \<noteq> h"
        by blast
      with ih have "successively (\<lambda>a b. \<not> (a = h \<and> b = h)) (c # out)"
        by (simp add: successively_Cons)
      moreover have "re_sub_plus P [h] s = c # out"
        by (simp add: Cons False out_def)
      ultimately show ?thesis by simp
    qed
  qed
qed

text \<open>
  A text without two hyphens in a row, in which the class holds the hyphen at most, is
  left alone by the substitution of \<open>X+\<close>.
\<close>

lemma re_sub_plus_no_runs:
  "\<forall>c\<in>set s. P c \<longrightarrow> c = h \<Longrightarrow> successively (\<lambda>a b. \<not> (a = h \<and> b = h)) s \<Longrightarrow>
     re_sub_plus P [h] s = s"
proof (induction s)
  case Nil
  then show ?case by simp
next
  case (Cons c cs)
  from Cons.prems(2) have tl: "successively (\<lambda>a b. \<not> (a = h \<and> b = h)) cs"
    by (cases cs) simp_all
  from Cons.prems(1) have single: "\<forall>c\<in>set cs. P c \<longrightarrow> c = h"
    by simp
  note ih = Cons.IH [OF single tl]
  show ?case
  proof (cases "P c")
    case True
    with Cons.prems(1) have "c = h" by simp
    with Cons.prems(2) have "cs = [] \<or> hd cs \<noteq> h"
      by (cases cs) auto
    then have "cs = [] \<or> \<not> P (hd cs)"
      using single by (cases cs) auto
    then have "dropWhile P cs = cs"
      by (cases cs) auto
    with True \<open>c = h\<close> ih show ?thesis by simp
  next
    case False
    with ih show ?thesis by simp
  qed
qed

lemma successively_dropWhile:
  assumes "successively Q s"
  shows "successively Q (dropWhile P s)"
proof -
  have "successively Q (takeWhile P s @ dropWhile P s)"
    using assms by simp
  then show ?thesis
    by (simp only: successively_append_iff)
qed

lemma successively_str_strip:
  assumes "successively (\<lambda>a b. \<not> (a = h \<and> b = h)) s"
  shows "successively (\<lambda>a b. \<not> (a = h \<and> b = h)) (str_strip chars s)"
proof -
  have sym: "(\<lambda>x y. \<not> (y = h \<and> x = h)) = (\<lambda>a b. \<not> (a = h \<and> b = h))"
    by (auto simp: fun_eq_iff)
  have "successively (\<lambda>a b. \<not> (a = h \<and> b = h)) (dropWhile (\<lambda>c. c \<in> set chars) s)"
    using assms by (rule successively_dropWhile)
  then have "successively (\<lambda>a b. \<not> (a = h \<and> b = h)) (rev (dropWhile (\<lambda>c. c \<in> set chars) s))"
    by (simp only: successively_rev sym)
  then have "successively (\<lambda>a b. \<not> (a = h \<and> b = h))
               (dropWhile (\<lambda>c. c \<in> set chars) (rev (dropWhile (\<lambda>c. c \<in> set chars) s)))"
    by (rule successively_dropWhile)
  then show ?thesis
    by (simp only: str_strip_def successively_rev sym)
qed

lemma set_str_strip: "set (str_strip chars s) \<subseteq> set s"
  by (auto simp: str_strip_def dest!: set_dropWhileD)

lemma str_strip_idem: "str_strip chars (str_strip chars s) = str_strip chars s"
proof -
  define P where "P = (\<lambda>c. c \<in> set chars)"
  define w where "w = dropWhile P s"
  define z where "z = rev (dropWhile P (rev w))"
  have "rev (takeWhile P (rev w) @ dropWhile P (rev w)) = w"
    by (simp only: takeWhile_dropWhile_id rev_rev_ident)
  then have "z @ rev (takeWhile P (rev w)) = w"
    by (simp only: rev_append z_def)
  then have w: "w = z @ rev (takeWhile P (rev w))"
    by (rule sym)
  have "dropWhile P z = z"
  proof (cases z)
    case Nil
    then show ?thesis by simp
  next
    case (Cons a as)
    from w have "w = (a # as) @ rev (takeWhile P (rev w))"
      by (simp only: Cons)
    then have "w = a # (as @ rev (takeWhile P (rev w)))"
      by (simp only: append_Cons)
    then obtain r where r: "w = a # r"
      by blast
    then have "w \<noteq> []" and hd: "hd w = a"
      by simp_all
    from \<open>w \<noteq> []\<close> have "\<not> P (hd w)"
      unfolding w_def by (rule hd_dropWhile)
    with hd have "\<not> P a" by simp
    then show ?thesis by (simp add: Cons)
  qed
  then have "rev (dropWhile P (rev (dropWhile P z))) = z"
    by (simp add: z_def)
  then show ?thesis
    by (simp add: str_strip_def P_def w_def z_def)
qed

lemma slugify_steps:
  "slugify u s = str_strip [hyphen] (re_sub_plus (\<lambda>c. c = hyphen) [hyphen]
     (re_sub_plus (is_space u) [hyphen]
       (re_sub_class (\<lambda>c. \<not> (is_word u c \<or> is_space u c \<or> c = hyphen)) [] (str_lower u s))))"
  by (simp only: slugify_def Let_def)

text \<open>
  Every character of a slug is a hyphen, or a word character of the lowercased input
  that is no whitespace.
\<close>

lemma slugify_char_origin:
  assumes "c \<in> set (slugify u s)"
  shows "c = hyphen \<or> (c \<in> set (str_lower u s) \<and> is_word u c \<and> \<not> is_space u c)"
proof -
  define t1 where "t1 = str_lower u s"
  define t2 where "t2 = re_sub_class (\<lambda>c. \<not> (is_word u c \<or> is_space u c \<or> c = hyphen)) [] t1"
  define t3 where "t3 = re_sub_plus (is_space u) [hyphen] t2"
  define t4 where "t4 = re_sub_plus (\<lambda>c. c = hyphen) [hyphen] t3"
  have y: "slugify u s = str_strip [hyphen] t4"
    by (simp only: slugify_steps t1_def t2_def t3_def t4_def)
  from assms have "c \<in> set t4"
    using set_str_strip y by fastforce
  then have "c \<in> set t3 \<or> c = hyphen"
    using set_re_sub_plus [of "\<lambda>c. c = hyphen" hyphen t3] by (auto simp: t4_def)
  then have "(c \<in> set t2 \<and> \<not> is_space u c) \<or> c = hyphen"
    using set_re_sub_plus [of "is_space u" hyphen t2] by (auto simp: t3_def)
  moreover have "c \<in> set t2 \<Longrightarrow> c \<in> set t1 \<and> (is_word u c \<or> is_space u c \<or> c = hyphen)"
    by (simp add: t2_def re_sub_class_filter)
  ultimately show ?thesis
    unfolding t1_def by blast
qed

lemma slugify_no_hyphen_runs:
  "successively (\<lambda>a b. \<not> (a = hyphen \<and> b = hyphen)) (slugify u s)"
  unfolding slugify_steps
  by (rule successively_str_strip, rule successively_re_sub_plus) simp

lemma slugify_strip_fixed: "str_strip [hyphen] (slugify u s) = slugify u s"
  unfolding slugify_steps by (rule str_strip_idem)

text \<open>What \<open>slugify\<close> leaves alone.\<close>

lemma slugify_fixed:
  assumes lower: "str_lower u y = y"
    and chars: "\<And>c. c \<in> set y \<Longrightarrow> c = hyphen \<or> (is_word u c \<and> \<not> is_space u c)"
    and runs: "successively (\<lambda>a b. \<not> (a = hyphen \<and> b = hyphen)) y"
    and ends: "str_strip [hyphen] y = y"
  shows "slugify u y = y"
proof -
  have 2: "re_sub_class (\<lambda>c. \<not> (is_word u c \<or> is_space u c \<or> c = hyphen)) [] y = y"
    by (rule re_sub_class_id) (use chars in blast)
  have 3: "re_sub_plus (is_space u) [hyphen] y = y"
    by (rule re_sub_plus_no_runs) (use chars runs in blast)+
  have 4: "re_sub_plus (\<lambda>c. c = hyphen) [hyphen] y = y"
    by (rule re_sub_plus_no_runs) (use runs in simp_all)
  show ?thesis
    by (simp only: slugify_steps lower 2 3 4 ends)
qed

lemma slugify_idem:
  assumes "lower_stable u"
  shows "slugify u (slugify u s) = slugify u s"
proof (rule slugify_fixed)
  have "set (slugify u s) \<subseteq> insert hyphen (set (str_lower u s))"
    using slugify_char_origin [of _ u s] by blast
  with assms show "str_lower u (slugify u s) = slugify u s"
    unfolding lower_stable_def by blast
  show "c = hyphen \<or> (is_word u c \<and> \<not> is_space u c)" if "c \<in> set (slugify u s)" for c
    using slugify_char_origin [OF that] by blast
  show "successively (\<lambda>a b. \<not> (a = hyphen \<and> b = hyphen)) (slugify u s)"
    by (rule slugify_no_hyphen_runs)
  show "str_strip [hyphen] (slugify u s) = slugify u s"
    by (rule slugify_strip_fixed)
qed

lemma slugify_no_word_lowered:
  assumes "\<forall>c\<in>set (str_lower u s). \<not> is_word u c"
  shows "slugify u s = []"
proof -
  define y where "y = slugify u s"
  have strip: "str_strip [hyphen] y = y"
    by (simp add: y_def slugify_strip_fixed)
  have "c = hyphen" if c: "c \<in> set y" for c
    using slugify_char_origin [of c u s] c assms unfolding y_def by blast
  then have "dropWhile (\<lambda>c. c \<in> set [hyphen]) y = []"
    by (simp add: dropWhile_eq_Nil_conv)
  then have "str_strip [hyphen] y = []"
    unfolding str_strip_def by (simp only: rev.simps dropWhile.simps)
  with strip have "y = []"
    by simp
  then show ?thesis
    by (simp add: y_def)
qed

lemma slugify_no_word:
  assumes "lower_keeps_nonword u" and "\<forall>c\<in>set s. \<not> is_word u c"
  shows "slugify u s = []"
proof (rule slugify_no_word_lowered)
  from assms(2) have "list_all (\<lambda>c. \<not> is_word u c) s"
    by (simp only: list_all_iff)
  with assms(1) have "list_all (\<lambda>c. \<not> is_word u c) (str_lower u s)"
    unfolding lower_keeps_nonword_def by blast
  then show "\<forall>c\<in>set (str_lower u s). \<not> is_word u c"
    by (simp only: list_all_iff)
qed

subsection \<open>Tables that agree give the same slug\<close>

lemma re_sub_plus_cong:
  "\<forall>c\<in>set s. P c = Q c \<Longrightarrow> re_sub_plus P repl s = re_sub_plus Q repl s"
proof (induction s rule: length_induct)
  case (1 s)
  show ?case
  proof (cases s)
    case Nil
    then show ?thesis by simp
  next
    case (Cons c cs)
    from "1.prems" Cons have c: "P c = Q c" and cs: "\<forall>c\<in>set cs. P c = Q c"
      by simp_all
    from cs have drop: "dropWhile P cs = dropWhile Q cs"
      by (intro dropWhile_cong) simp_all
    have "length (dropWhile Q cs) < length s"
      by (simp add: Cons length_dropWhile_le less_Suc_eq_le)
    moreover have "\<forall>c\<in>set (dropWhile Q cs). P c = Q c"
      using cs by (auto dest: set_dropWhileD)
    ultimately have 2: "re_sub_plus P repl (dropWhile Q cs) = re_sub_plus Q repl (dropWhile Q cs)"
      using "1.IH" by blast
    have "length cs < length s"
      by (simp add: Cons)
    with cs have 3: "re_sub_plus P repl cs = re_sub_plus Q repl cs"
      using "1.IH" by blast
    show ?thesis
      by (simp add: Cons c drop 2 3)
  qed
qed

lemma slugify_cong:
  assumes lower: "str_lower u s = str_lower v s"
    and classes: "\<forall>c\<in>set (str_lower v s). is_word u c = is_word v c \<and> is_space u c = is_space v c"
  shows "slugify u s = slugify v s"
proof -
  define t1 where "t1 = str_lower v s"
  define t2 where "t2 = filter (\<lambda>c. is_word v c \<or> is_space v c \<or> c = hyphen) t1"
  have "filter (\<lambda>c. is_word u c \<or> is_space u c \<or> c = hyphen) t1 = t2"
    unfolding t2_def using classes by (intro filter_cong) (auto simp: t1_def)
  moreover have "re_sub_plus (is_space u) [hyphen] t2 = re_sub_plus (is_space v) [hyphen] t2"
    by (rule re_sub_plus_cong) (use classes in \<open>auto simp: t2_def t1_def\<close>)
  ultimately show ?thesis
    by (simp add: slugify_steps re_sub_class_filter lower t1_def t2_def)
qed

subsection \<open>The sample table\<close>

lemma basic_ucd_conformant: "ascii_conformant basic_ucd"
  by (simp add: ascii_conformant_def basic_ucd_def)

lemma ascii_lower_char_idem: "ascii_lower_char (ascii_lower_char c) = ascii_lower_char c"
  by (simp add: ascii_lower_char_def)

lemma basic_ucd_lower_stable: "lower_stable basic_ucd"
proof -
  have "map ascii_lower_char y = y"
    if "set y \<subseteq> insert hyphen (set (map ascii_lower_char x))" for x y
  proof (rule map_idI)
    fix c assume "c \<in> set y"
    with that have "c = hyphen \<or> (\<exists>a. c = ascii_lower_char a)"
      by auto
    then show "ascii_lower_char c = c"
      by (auto simp: ascii_lower_char_idem) (simp add: ascii_lower_char_def hyphen_def)
  qed
  then show ?thesis
    by (simp add: lower_stable_def basic_ucd_def)
qed

lemma ascii_word_lower: "ascii_word (ascii_lower_char c) = ascii_word c"
  by (auto simp: ascii_word_def ascii_lower_char_def)

lemma basic_ucd_keeps_nonword: "lower_keeps_nonword basic_ucd"
  by (simp add: lower_keeps_nonword_def basic_ucd_def list_all_iff ascii_word_lower)

text \<open>On ASCII text, every conformant table gives the slug that the sample table gives.\<close>

lemma slugify_ascii:
  assumes conf: "ascii_conformant u" and plain: "list_all (\<lambda>c. c < 128) s"
  shows "slugify u s = slugify basic_ucd s"
proof (rule slugify_cong)
  from conf plain have "str_lower u s = map ascii_lower_char s"
    unfolding ascii_conformant_def by blast
  then show "str_lower u s = str_lower basic_ucd s"
    by (simp add: basic_ucd_def)
  have "c < 128" if "c \<in> set (str_lower basic_ucd s)" for c
  proof -
    from that obtain a where "a \<in> set s" and c: "c = ascii_lower_char a"
      by (auto simp: basic_ucd_def)
    with plain have "a < 128"
      by (simp add: list_all_iff)
    with c show ?thesis
      by (simp add: ascii_lower_char_def)
  qed
  with conf show "\<forall>c\<in>set (str_lower basic_ucd s).
      is_word u c = is_word basic_ucd c \<and> is_space u c = is_space basic_ucd c"
    by (simp add: ascii_conformant_def basic_ucd_def)
qed

lemma slugify_best_gin_tonic_basic:
  "slugify basic_ucd (ascii ''Best Gin & Tonic!!'') = ascii ''best-gin-tonic''"
  by code_simp

lemma slugify_best_gin_basic: "slugify basic_ucd (ascii ''Best Gin'') = ascii ''best-gin''"
  by code_simp

lemma best_gin_tonic_is_ascii: "list_all (\<lambda>c. c < 128) (ascii ''Best Gin & Tonic!!'')"
  by code_simp

lemma best_gin_is_ascii: "list_all (\<lambda>c. c < 128) (ascii ''Best Gin'')"
  by code_simp

lemma slugify_best_gin_tonic:
  "ascii_conformant u \<Longrightarrow> slugify u (ascii ''Best Gin & Tonic!!'') = ascii ''best-gin-tonic''"
  by (simp only: slugify_ascii [OF _ best_gin_tonic_is_ascii] slugify_best_gin_tonic_basic)

lemma slugify_best_gin:
  "ascii_conformant u \<Longrightarrow> slugify u (ascii ''Best Gin'') = ascii ''best-gin''"
  by (simp only: slugify_ascii [OF _ best_gin_is_ascii] slugify_best_gin_basic)

text \<open>
  Claim C8. \<open>slugify\<close> computes the policy of the specification: for every Unicode
  table and every input it agrees with \<open>slugify_spec\<close> (lowercase; strip what is neither
  word character, whitespace nor hyphen; whitespace runs to one hyphen; hyphen runs to
  one; trim the hyphens at both ends). \<open>slugify("Best Gin & Tonic!!")\<close> is
  \<open>"best-gin-tonic"\<close> under every table that is Python's on ASCII. An input leaves
  nothing to retain when its lowercased text has no word character, and then the slug is
  the empty string; so it is for an input that has no word character itself, since
  lowercasing does not make one.
\<close>

theorem slugify_meets_policy:
  "slugify u s = slugify_spec u s
   \<and> (ascii_conformant u \<longrightarrow> slugify u (ascii ''Best Gin & Tonic!!'') = ascii ''best-gin-tonic'')
   \<and> ((\<forall>c\<in>set (str_lower u s). \<not> is_word u c) \<longrightarrow> slugify u s = [])
   \<and> (lower_keeps_nonword u \<and> (\<forall>c\<in>set s. \<not> is_word u c) \<longrightarrow> slugify u s = [])"
  using slugify_refines slugify_best_gin_tonic slugify_no_word_lowered slugify_no_word by blast

theorem slugify_meets_policy_witness:
  "slugify basic_ucd (ascii ''& - !'') = slugify_spec basic_ucd (ascii ''& - !'')
   \<and> ascii_conformant basic_ucd
   \<and> slugify basic_ucd (ascii ''Best Gin & Tonic!!'') = ascii ''best-gin-tonic''
   \<and> list_all (\<lambda>c. \<not> is_word basic_ucd c) (str_lower basic_ucd (ascii ''& - !''))
   \<and> lower_keeps_nonword basic_ucd
   \<and> list_all (\<lambda>c. \<not> is_word basic_ucd c) (ascii ''& - !'')
   \<and> slugify basic_ucd (ascii ''& - !'') = []"
proof -
  have lowered: "list_all (\<lambda>c. \<not> is_word basic_ucd c) (str_lower basic_ucd (ascii ''& - !''))"
    by code_simp
  have input: "list_all (\<lambda>c. \<not> is_word basic_ucd c) (ascii ''& - !'')"
    by code_simp
  from input have "\<forall>c\<in>set (ascii ''& - !''). \<not> is_word basic_ucd c"
    by (simp only: list_all_iff)
  with lowered input basic_ucd_conformant basic_ucd_keeps_nonword
    slugify_meets_policy [of basic_ucd "ascii ''& - !''"]
  show ?thesis
    by blast
qed

text \<open>
  Claim C9. \<open>slugify\<close> is idempotent: \<open>slugify(slugify(x)) == slugify(x)\<close> for every
  input \<open>x\<close>, of any length and with any code points, under every Unicode table whose
  lowercasing yields lowercase text (\<open>lower_stable\<close>, which holds of Python's
  \<open>str.lower\<close>). Nothing is assumed of \<open>\w\<close> and \<open>\s\<close>.
\<close>

theorem slugify_idempotent:
  "lower_stable u \<Longrightarrow> slugify u (slugify u x) = slugify u x"
  by (rule slugify_idem)

theorem slugify_idempotent_witness:
  "lower_stable basic_ucd
   \<and> slugify basic_ucd (slugify basic_ucd (ascii ''  Best -- Gin & Tonic!!  ''))
     = slugify basic_ucd (ascii ''  Best -- Gin & Tonic!!  '')"
  using basic_ucd_lower_stable slugify_idempotent [OF basic_ucd_lower_stable] by blast

section \<open>Properties of the store\<close>

subsection \<open>One step of a scan\<close>

lemma carries_slug_iff:
  "carries_slug slug f \<longleftrightarrow>
     (\<exists>a. json_load f = Inr a \<and> dict_get a (ascii ''slug'') = Inr (Some (JStr slug)))"
proof (cases f)
  case Unparseable
  then show ?thesis by simp
next
  case (Parsed a)
  then show ?thesis by (cases a) auto
qed

lemma carries_slug_obj:
  assumes "carries_slug slug f"
  obtains kvs where "f = Parsed (JObj kvs)" and "map_of kvs (ascii ''slug'') = Some (JStr slug)"
proof (cases f)
  case Unparseable
  with assms show ?thesis by simp
next
  case (Parsed a)
  with assms that show ?thesis by (cases a) auto
qed

lemma get_article_skip:
  "\<not> carries_slug slug f \<Longrightarrow>
     get_article slug ((name, f) # rest) = get_article slug rest"
proof (cases f)
  case Unparseable
  then show ?thesis by simp
next
  case (Parsed a)
  assume "\<not> carries_slug slug f"
  with Parsed show ?thesis by (cases a) auto
qed

lemma get_article_hit:
  "map_of kvs (ascii ''slug'') = Some (JStr slug) \<Longrightarrow>
     get_article slug ((name, Parsed (JObj kvs)) # rest) = Inr (Json_text (JObj kvs))"
  by simp

lemma update_scan_skip:
  "\<not> carries_slug slug f \<Longrightarrow>
     update_scan slug status now ((name, f) # rest) dir = update_scan slug status now rest dir"
proof (cases f)
  case Unparseable
  then show ?thesis by simp
next
  case (Parsed a)
  assume "\<not> carries_slug slug f"
  with Parsed show ?thesis by (cases a) auto
qed

lemma delete_scan_skip:
  "\<not> carries_slug slug f \<Longrightarrow>
     delete_scan slug ((name, f) # rest) dir = delete_scan slug rest dir"
proof (cases f)
  case Unparseable
  then show ?thesis by simp
next
  case (Parsed a)
  assume "\<not> carries_slug slug f"
  with Parsed show ?thesis by (cases a) auto
qed

lemma delete_scan_hit:
  "map_of kvs (ascii ''slug'') = Some (JStr slug) \<Longrightarrow>
     delete_scan slug ((name, Parsed (JObj kvs)) # rest) dir =
       (Inr (Message ((ascii ''Article deleted: '') @ slug)), unlink name dir)"
  by simp

text \<open>The record after the mutation of \<open>update_article_status\<close>.\<close>

lemma set_status_obj:
  "set_status status now (JObj kvs) =
     Inr (JObj (if status = (ascii ''published'') \<and> \<not> py_bool (map_of kvs (ascii ''publishedAt''))
                then AList.update (ascii ''publishedAt'') (JStr (isoformat now))
                       (AList.update (ascii ''status'') (JStr status) kvs)
                else AList.update (ascii ''status'') (JStr status) kvs))"
  by (simp add: set_status_def update_conv')

lemma update_scan_hit:
  "map_of kvs (ascii ''slug'') = Some (JStr slug) \<Longrightarrow>
     update_scan slug status now ((name, Parsed (JObj kvs)) # rest) dir =
       (Inr (Message ((ascii ''Article '') @ [39] @ slug @ [39] @ (ascii '' status updated to: '') @ status)),
        rewrite_file name
          (Parsed (JObj (if status = (ascii ''published'') \<and> \<not> py_bool (map_of kvs (ascii ''publishedAt''))
                         then AList.update (ascii ''publishedAt'') (JStr (isoformat now))
                                (AList.update (ascii ''status'') (JStr status) kvs)
                         else AList.update (ascii ''status'') (JStr status) kvs))) dir)"
  by (simp add: set_status_obj)

subsection \<open>A scan that finds nothing\<close>

lemma get_article_none:
  "list_all (\<lambda>(name, f). \<not> carries_slug slug f) files \<Longrightarrow>
     get_article slug files = Inr (Message ((ascii ''Article not found: '') @ slug))"
  by (induction files) (auto simp del: get_article.simps(2) simp add: get_article_skip)

lemma update_scan_none:
  "list_all (\<lambda>(name, f). \<not> carries_slug slug f) files \<Longrightarrow>
     update_scan slug status now files dir = (Inr (Message ((ascii ''Article not found: '') @ slug)), dir)"
  by (induction files) (auto simp del: update_scan.simps(2) simp add: update_scan_skip)

lemma delete_scan_none:
  "list_all (\<lambda>(name, f). \<not> carries_slug slug f) files \<Longrightarrow>
     delete_scan slug files dir = (Inr (Message ((ascii ''Article not found: '') @ slug)), dir)"
  by (induction files) (auto simp del: delete_scan.simps(2) simp add: delete_scan_skip)

lemma first_match_None:
  "first_match slug files = None \<longleftrightarrow> list_all (\<lambda>(name, f). \<not> carries_slug slug f) files"
  by (auto simp: first_match_def find_None_iff list_all_iff)

subsection \<open>A scan that finds a record\<close>

lemma first_match_Some_split:
  assumes "first_match slug files = Some (name, f)"
  obtains before rest where "files = before @ (name, f) # rest"
    and "list_all (\<lambda>(name, f). \<not> carries_slug slug f) before"
    and "carries_slug slug f"
proof -
  from assms obtain i where i: "i < length files" "carries_slug slug f"
      "files ! i = (name, f)" "\<forall>j<i. \<not> (case files ! j of (name, f) \<Rightarrow> carries_slug slug f)"
    unfolding first_match_def find_Some_iff by auto
  have "files = take i files @ (name, f) # drop (Suc i) files"
    using i(1,3) by (metis id_take_nth_drop)
  moreover have "list_all (\<lambda>(name, f). \<not> carries_slug slug f) (take i files)"
    unfolding list_all_length using i(1,4) by auto
  ultimately show ?thesis
    using that i(2) by blast
qed

lemma get_article_append:
  "list_all (\<lambda>(name, f). \<not> carries_slug slug f) before \<Longrightarrow>
     get_article slug (before @ files) = get_article slug files"
  by (induction before) (auto simp del: get_article.simps(2) simp add: get_article_skip)

lemma update_scan_append:
  "list_all (\<lambda>(name, f). \<not> carries_slug slug f) before \<Longrightarrow>
     update_scan slug status now (before @ files) dir = update_scan slug status now files dir"
  by (induction before) (auto simp del: update_scan.simps(2) simp add: update_scan_skip)

lemma delete_scan_append:
  "list_all (\<lambda>(name, f). \<not> carries_slug slug f) before \<Longrightarrow>
     delete_scan slug (before @ files) dir = delete_scan slug files dir"
  by (induction before) (auto simp del: delete_scan.simps(2) simp add: delete_scan_skip)

subsection \<open>Writing and removing files\<close>

lemma rewrite_file_names: "map fst (rewrite_file p new files) = map fst files"
  by (induction files) (auto simp: rewrite_file_def)

lemma rewrite_file_Cons:
  "rewrite_file p new ((name, old) # files) =
     (if name = p then (name, new) else (name, old)) # rewrite_file p new files"
  by (simp add: rewrite_file_def)

lemma map_of_rewrite_file_other:
  "q \<noteq> p \<Longrightarrow> map_of (rewrite_file p new files) q = map_of files q"
proof (induction files)
  case Nil
  then show ?case by (simp add: rewrite_file_def)
next
  case (Cons entry files)
  obtain name old where entry: "entry = (name, old)"
    by (cases entry)
  from Cons show ?case
    by (simp add: entry rewrite_file_Cons)
qed

lemma map_of_rewrite_file_same:
  "p \<in> fst ` set files \<Longrightarrow> map_of (rewrite_file p new files) p = Some new"
proof (induction files)
  case Nil
  then show ?case by simp
next
  case (Cons entry files)
  obtain name old where entry: "entry = (name, old)"
    by (cases entry)
  show ?case
  proof (cases "name = p")
    case True
    then show ?thesis
      by (simp add: entry rewrite_file_Cons)
  next
    case False
    with Cons.prems have "p \<in> fst ` set files"
      by (simp add: entry)
    then have "map_of (rewrite_file p new files) p = Some new"
      by (rule Cons.IH)
    with False show ?thesis
      by (simp add: entry rewrite_file_Cons)
  qed
qed

lemma map_of_write_file_same: "map_of (write_file dir_pos p new files) p = Some new"
proof (cases "p \<in> fst ` set files")
  case True
  then show ?thesis
    by (simp add: write_file_def map_of_rewrite_file_same)
next
  case False
  have "fst ` set (take dir_pos files) \<subseteq> fst ` set files"
    by (intro image_mono set_take_subset)
  with False have "p \<notin> fst ` set (take dir_pos files)"
    by blast
  then have "map_of (take dir_pos files) p = None"
    by (rule map_of_eq_None_iff [THEN iffD2])
  with False show ?thesis
    by (simp add: write_file_def map_of_append map_add_def)
qed

lemma set_unlink: "set (unlink p files) = {(name, f) \<in> set files. name \<noteq> p}"
  by (auto simp: unlink_def)

lemma set_sorted_reverse: "set (sorted_reverse files) = set files"
  by (simp add: sorted_reverse_def)

subsection \<open>The tools on a slug that is, or is not, in the store\<close>

lemma update_article_status_miss:
  "list_all (\<lambda>(name, f). \<not> carries_slug slug f) files \<Longrightarrow>
     update_article_status slug status now files =
       (Inr (Message ((ascii ''Article not found: '') @ slug)), files)"
  by (simp add: update_article_status_def update_scan_none)

lemma delete_article_miss:
  "list_all (\<lambda>(name, f). \<not> carries_slug slug f) files \<Longrightarrow>
     delete_article slug files = (Inr (Message ((ascii ''Article not found: '') @ slug)), files)"
  by (simp add: delete_article_def delete_scan_none)

lemma get_article_found:
  assumes "first_match slug files = Some (name, f)"
  shows "\<exists>kvs. f = Parsed (JObj kvs) \<and> map_of kvs (ascii ''slug'') = Some (JStr slug)
           \<and> get_article slug files = Inr (Json_text (JObj kvs))"
proof -
  from assms obtain before rest where split: "files = before @ (name, f) # rest"
    and before: "list_all (\<lambda>(name, f). \<not> carries_slug slug f) before"
    and hit: "carries_slug slug f"
    by (rule first_match_Some_split)
  from hit obtain kvs where f: "f = Parsed (JObj kvs)" and slug: "map_of kvs (ascii ''slug'') = Some (JStr slug)"
    by (rule carries_slug_obj)
  have "get_article slug files = get_article slug ((name, Parsed (JObj kvs)) # rest)"
    unfolding split f using before by (rule get_article_append)
  also have "\<dots> = Inr (Json_text (JObj kvs))"
    using slug by (rule get_article_hit)
  finally show ?thesis
    using f slug by blast
qed

lemma update_article_status_found:
  assumes "first_match slug files = Some (name, f)"
  shows "\<exists>kvs. f = Parsed (JObj kvs) \<and> map_of kvs (ascii ''slug'') = Some (JStr slug)
           \<and> update_article_status slug status now files =
               (Inr (Message ((ascii ''Article '') @ [39] @ slug @ [39]
                                @ (ascii '' status updated to: '') @ status)),
                rewrite_file name
                  (Parsed (JObj (if status = (ascii ''published'') \<and> \<not> py_bool (map_of kvs (ascii ''publishedAt''))
                                 then AList.update (ascii ''publishedAt'') (JStr (isoformat now))
                                        (AList.update (ascii ''status'') (JStr status) kvs)
                                 else AList.update (ascii ''status'') (JStr status) kvs))) files)"
proof -
  from assms obtain before rest where split: "files = before @ (name, f) # rest"
    and before: "list_all (\<lambda>(name, f). \<not> carries_slug slug f) before"
    and hit: "carries_slug slug f"
    by (rule first_match_Some_split)
  from hit obtain kvs where f: "f = Parsed (JObj kvs)" and slug: "map_of kvs (ascii ''slug'') = Some (JStr slug)"
    by (rule carries_slug_obj)
  have "update_scan slug status now files files
      = update_scan slug status now ((name, Parsed (JObj kvs)) # rest) files"
    using before by (subst split, unfold f) (rule update_scan_append)
  also note update_scan_hit [OF slug]
  finally show ?thesis
    using f slug unfolding update_article_status_def by blast
qed

lemma delete_article_found:
  assumes "first_match slug files = Some (name, f)"
  shows "delete_article slug files = (Inr (Message ((ascii ''Article deleted: '') @ slug)), unlink name files)"
proof -
  from assms obtain before rest where split: "files = before @ (name, f) # rest"
    and before: "list_all (\<lambda>(name, f). \<not> carries_slug slug f) before"
    and hit: "carries_slug slug f"
    by (rule first_match_Some_split)
  from hit obtain kvs where f: "f = Parsed (JObj kvs)" and slug: "map_of kvs (ascii ''slug'') = Some (JStr slug)"
    by (rule carries_slug_obj)
  have "delete_scan slug files files = delete_scan slug ((name, Parsed (JObj kvs)) # rest) files"
    using before by (subst split, unfold f) (rule delete_scan_append)
  also note delete_scan_hit [OF slug]
  finally show ?thesis
    unfolding delete_article_def .
qed

lemma first_match_in_set:
  "first_match slug files = Some (name, f) \<Longrightarrow> (name, f) \<in> set files"
  by (auto elim: first_match_Some_split)

text \<open>
  Claim C6. For a slug that no stored record carries, \<open>get_article\<close>,
  \<open>update_article_status\<close> and \<open>delete_article\<close> each return the message
  \<open>Article not found: slug\<close> as their result, none of them raises, and the directory is
  as it was.
\<close>

theorem not_found_is_a_result:
  assumes "list_all (\<lambda>(name, f). \<not> carries_slug slug f) files"
  shows "get_article slug files = Inr (Message ((ascii ''Article not found: '') @ slug))
       \<and> update_article_status slug status now files =
           (Inr (Message ((ascii ''Article not found: '') @ slug)), files)
       \<and> delete_article slug files = (Inr (Message ((ascii ''Article not found: '') @ slug)), files)"
  using assms
  by (simp only: get_article_none update_article_status_miss delete_article_miss simp_thms)

theorem not_found_is_a_result_witness:
  "list_all (\<lambda>(name, f). \<not> carries_slug (ascii ''tonic-water'') f)
     [((ascii ''best-gin-20240101120000.json''),
         Parsed (sample_article (ascii ''best-gin'') (ascii ''20240101120000'') (ascii ''Juniper.'') (ascii ''published''))),
      ((ascii ''broken.json''), Unparseable)]
   \<and> get_article (ascii ''tonic-water'')
       [((ascii ''best-gin-20240101120000.json''),
           Parsed (sample_article (ascii ''best-gin'') (ascii ''20240101120000'') (ascii ''Juniper.'') (ascii ''published''))),
        ((ascii ''broken.json''), Unparseable)]
     = Inr (Message (ascii ''Article not found: tonic-water''))
   \<and> update_article_status (ascii ''tonic-water'') (ascii ''draft'') sample_clock
       [((ascii ''best-gin-20240101120000.json''),
           Parsed (sample_article (ascii ''best-gin'') (ascii ''20240101120000'') (ascii ''Juniper.'') (ascii ''published''))),
        ((ascii ''broken.json''), Unparseable)]
     = (Inr (Message (ascii ''Article not found: tonic-water'')),
        [((ascii ''best-gin-20240101120000.json''),
            Parsed (sample_article (ascii ''best-gin'') (ascii ''20240101120000'') (ascii ''Juniper.'') (ascii ''published''))),
         ((ascii ''broken.json''), Unparseable)])
   \<and> delete_article (ascii ''tonic-water'')
       [((ascii ''best-gin-20240101120000.json''),
           Parsed (sample_article (ascii ''best-gin'') (ascii ''20240101120000'') (ascii ''Juniper.'') (ascii ''published''))),
        ((ascii ''broken.json''), Unparseable)]
     = (Inr (Message (ascii ''Article not found: tonic-water'')),
        [((ascii ''best-gin-20240101120000.json''),
            Parsed (sample_article (ascii ''best-gin'') (ascii ''20240101120000'') (ascii ''Juniper.'') (ascii ''published''))),
         ((ascii ''broken.json''), Unparseable)])"
proof -
  have none: "list_all (\<lambda>(name, f). \<not> carries_slug (ascii ''tonic-water'') f)
     [((ascii ''best-gin-20240101120000.json''),
         Parsed (sample_article (ascii ''best-gin'') (ascii ''20240101120000'') (ascii ''Juniper.'') (ascii ''published''))),
      ((ascii ''broken.json''), Unparseable)]"
    by (simp add: sample_article_def)
  from not_found_is_a_result [OF none, of "(ascii ''draft'')" sample_clock] none
  show ?thesis by simp
qed

text \<open>
  Claim C10. \<open>update_article_status\<close> does not validate the new status: on a slug that
  a stored record carries, any string \<open>s\<close> (also one outside \<open>draft\<close> and
  \<open>published\<close>) becomes the \<open>status\<close> of the first record with that slug, and the
  tool confirms the update.
\<close>

theorem update_status_unvalidated:
  assumes "first_match slug files = Some (name, f)"
  shows "fst (update_article_status slug s now files) =
           Inr (Message ((ascii ''Article '') @ [39] @ slug @ [39] @ (ascii '' status updated to: '') @ s))
       \<and> stored_field (snd (update_article_status slug s now files)) name (ascii ''status'') = Some (JStr s)"
proof -
  from update_article_status_found [OF assms, of s now]
  obtain kvs where upd: "update_article_status slug s now files =
      (Inr (Message ((ascii ''Article '') @ [39] @ slug @ [39] @ (ascii '' status updated to: '') @ s)),
       rewrite_file name
         (Parsed (JObj (if s = (ascii ''published'') \<and> \<not> py_bool (map_of kvs (ascii ''publishedAt''))
                        then AList.update (ascii ''publishedAt'') (JStr (isoformat now))
                               (AList.update (ascii ''status'') (JStr s) kvs)
                        else AList.update (ascii ''status'') (JStr s) kvs))) files)"
    by blast
  from assms have "(name, f) \<in> set files"
    by (rule first_match_in_set)
  then have "fst (name, f) \<in> fst ` set files"
    by (rule imageI)
  then have "name \<in> fst ` set files"
    by simp
  then show ?thesis
    by (simp add: upd stored_field_def map_of_rewrite_file_same update_conv')
qed

theorem update_status_unvalidated_witness:
  "first_match (ascii ''best-gin'')
     [((ascii ''best-gin-20240101120000.json''),
         Parsed (sample_article (ascii ''best-gin'') (ascii ''20240101120000'') (ascii ''Juniper.'') (ascii ''published'')))]
     = Some ((ascii ''best-gin-20240101120000.json''),
         Parsed (sample_article (ascii ''best-gin'') (ascii ''20240101120000'') (ascii ''Juniper.'') (ascii ''published'')))
   \<and> fst (update_article_status (ascii ''best-gin'') (ascii ''archived'') sample_clock
       [((ascii ''best-gin-20240101120000.json''),
           Parsed (sample_article (ascii ''best-gin'') (ascii ''20240101120000'') (ascii ''Juniper.'') (ascii ''published'')))])
     = Inr (Message ((ascii ''Article '') @ [39] @ (ascii ''best-gin'') @ [39]
                       @ (ascii '' status updated to: archived'')))
   \<and> stored_field (snd (update_article_status (ascii ''best-gin'') (ascii ''archived'') sample_clock
       [((ascii ''best-gin-20240101120000.json''),
           Parsed (sample_article (ascii ''best-gin'') (ascii ''20240101120000'') (ascii ''Juniper.'') (ascii ''published'')))]))
       (ascii ''best-gin-20240101120000.json'') (ascii ''status'') = Some (JStr (ascii ''archived''))"
proof -
  have hit: "first_match (ascii ''best-gin'')
     [((ascii ''best-gin-20240101120000.json''),
         Parsed (sample_article (ascii ''best-gin'') (ascii ''20240101120000'') (ascii ''Juniper.'') (ascii ''published'')))]
     = Some ((ascii ''best-gin-20240101120000.json''),
         Parsed (sample_article (ascii ''best-gin'') (ascii ''20240101120000'') (ascii ''Juniper.'') (ascii ''published'')))"
    by (simp add: first_match_def sample_article_def)
  from update_status_unvalidated [OF hit, of "(ascii ''archived'')" sample_clock] hit
  show ?thesis by simp
qed

subsection \<open>Deleting\<close>

lemma collect_articles_subset:
  "set (collect_articles status limit files acc) \<subseteq> set acc \<union> {a. \<exists>name. (name, Parsed a) \<in> set files}"
proof (induction files arbitrary: acc)
  case Nil
  then show ?case by simp
next
  case (Cons entry files)
  obtain name f where entry: "entry = (name, f)"
    by (cases entry)
  show ?case
  proof (cases f)
    case Unparseable
    with Cons [of acc] show ?thesis
      by (auto simp: entry)
  next
    case (Parsed a)
    show ?thesis
    proof (cases "status_matches status a = Inr True")
      case True
      with Cons [of "acc @ [a]"] show ?thesis
        by (auto simp: entry Parsed)
    next
      case False
      with Cons [of acc] show ?thesis
        by (cases "status_matches status a") (auto simp: entry Parsed)
    qed
  qed
qed

lemma first_match_filter:
  "first_match slug files = (case filter (\<lambda>(name, f). carries_slug slug f) files of
                               [] \<Rightarrow> None | x # xs \<Rightarrow> Some x)"
  unfolding first_match_def by (induction files) auto

lemma unique_slug_removed:
  assumes "length (filter (\<lambda>(name, f). carries_slug slug f) files) = 1"
  obtains name f where "first_match slug files = Some (name, f)"
    and "list_all (\<lambda>(name, f). \<not> carries_slug slug f) (unlink name files)"
proof -
  from assms obtain x where x: "filter (\<lambda>(name, f). carries_slug slug f) files = [x]"
    by (cases "filter (\<lambda>(name, f). carries_slug slug f) files") auto
  obtain name f where nf: "x = (name, f)"
    by (cases x)
  have first: "first_match slug files = Some (name, f)"
    by (simp add: first_match_filter x nf)
  have "\<not> carries_slug slug g" if "(n, g) \<in> set (unlink name files)" for n g
  proof
    assume "carries_slug slug g"
    with that have "(n, g) \<in> set (filter (\<lambda>(name, f). carries_slug slug f) files)"
      by (simp add: set_unlink)
    then have "(n, g) = (name, f)"
      by (simp add: x nf)
    with that show False
      by (simp add: set_unlink)
  qed
  then have "list_all (\<lambda>(name, f). \<not> carries_slug slug f) (unlink name files)"
    by (auto simp: list_all_iff)
  with first that show ?thesis
    by blast
qed

lemma collect_articles_without_slug:
  assumes "list_all (\<lambda>(name, f). \<not> carries_slug slug f) files"
  shows "list_all (\<lambda>a. dict_get a (ascii ''slug'') \<noteq> Inr (Some (JStr slug)))
           (collect_articles status limit (sorted_reverse files) [])"
proof -
  have "dict_get a (ascii ''slug'') \<noteq> Inr (Some (JStr slug))"
    if "a \<in> set (collect_articles status limit (sorted_reverse files) [])" for a
  proof -
    from that collect_articles_subset [of status limit "sorted_reverse files" "[]"]
    obtain name where "(name, Parsed a) \<in> set files"
      by (auto simp: set_sorted_reverse)
    with assms have "\<not> carries_slug slug (Parsed a)"
      by (auto simp: list_all_iff)
    then show ?thesis
      by (simp add: carries_slug_iff)
  qed
  then show ?thesis
    by (simp add: list_all_iff)
qed

text \<open>
  Claim C7, as the code has it. Deleting a slug that no stored record carries returns the
  not-found message and leaves the directory alone. \<open>delete_article\<close> removes the first
  file whose record carries the slug: when exactly one stored record carries it, the
  deletion is confirmed and afterwards \<open>get_article\<close> does not find the slug and no
  record that \<open>get_articles\<close> collects carries it, whatever the filter and the limit.
\<close>

theorem delete_removes_unique_slug:
  "(list_all (\<lambda>(name, f). \<not> carries_slug slug f) files \<longrightarrow>
      delete_article slug files = (Inr (Message ((ascii ''Article not found: '') @ slug)), files))
   \<and> (length (filter (\<lambda>(name, f). carries_slug slug f) files) = 1 \<longrightarrow>
        fst (delete_article slug files) = Inr (Message ((ascii ''Article deleted: '') @ slug))
      \<and> get_article slug (snd (delete_article slug files)) =
          Inr (Message ((ascii ''Article not found: '') @ slug))
      \<and> list_all (\<lambda>a. dict_get a (ascii ''slug'') \<noteq> Inr (Some (JStr slug)))
          (collect_articles status limit (sorted_reverse (snd (delete_article slug files))) []))"
proof (intro conjI impI)
  assume "list_all (\<lambda>(name, f). \<not> carries_slug slug f) files"
  then show "delete_article slug files = (Inr (Message ((ascii ''Article not found: '') @ slug)), files)"
    by (rule delete_article_miss)
next
  assume one: "length (filter (\<lambda>(name, f). carries_slug slug f) files) = 1"
  then obtain name f where first: "first_match slug files = Some (name, f)"
    and gone: "list_all (\<lambda>(name, f). \<not> carries_slug slug f) (unlink name files)"
    by (rule unique_slug_removed)
  have del: "delete_article slug files = (Inr (Message ((ascii ''Article deleted: '') @ slug)), unlink name files)"
    using first by (rule delete_article_found)
  show "fst (delete_article slug files) = Inr (Message ((ascii ''Article deleted: '') @ slug))"
    by (simp add: del)
  show "get_article slug (snd (delete_article slug files)) =
          Inr (Message ((ascii ''Article not found: '') @ slug))"
    using gone by (simp add: del get_article_none)
  show "list_all (\<lambda>a. dict_get a (ascii ''slug'') \<noteq> Inr (Some (JStr slug)))
          (collect_articles status limit (sorted_reverse (snd (delete_article slug files))) [])"
    using gone by (simp add: del collect_articles_without_slug)
qed

theorem delete_removes_unique_slug_witness:
  "list_all (\<lambda>(name, f). \<not> carries_slug (ascii ''tonic-water'') f)
     [((ascii ''best-gin-20240101120000.json''),
         Parsed (sample_article (ascii ''best-gin'') (ascii ''20240101120000'') (ascii ''Juniper.'') (ascii ''published'')))]
   \<and> delete_article (ascii ''tonic-water'')
       [((ascii ''best-gin-20240101120000.json''),
           Parsed (sample_article (ascii ''best-gin'') (ascii ''20240101120000'') (ascii ''Juniper.'') (ascii ''published'')))]
     = (Inr (Message (ascii ''Article not found: tonic-water'')),
        [((ascii ''best-gin-20240101120000.json''),
            Parsed (sample_article (ascii ''best-gin'') (ascii ''20240101120000'') (ascii ''Juniper.'') (ascii ''published'')))])
   \<and> length (filter (\<lambda>(name, f). carries_slug (ascii ''best-gin'') f)
       [((ascii ''best-gin-20240101120000.json''),
           Parsed (sample_article (ascii ''best-gin'') (ascii ''20240101120000'') (ascii ''Juniper.'') (ascii ''published''))),
        ((ascii ''dry-tonic-20240101120000.json''),
           Parsed (sample_article (ascii ''dry-tonic'') (ascii ''20240101120000'') (ascii ''Quinine.'') (ascii ''draft'')))]) = 1
   \<and> fst (delete_article (ascii ''best-gin'')
       [((ascii ''best-gin-20240101120000.json''),
           Parsed (sample_article (ascii ''best-gin'') (ascii ''20240101120000'') (ascii ''Juniper.'') (ascii ''published''))),
        ((ascii ''dry-tonic-20240101120000.json''),
           Parsed (sample_article (ascii ''dry-tonic'') (ascii ''20240101120000'') (ascii ''Quinine.'') (ascii ''draft'')))])
     = Inr (Message (ascii ''Article deleted: best-gin''))
   \<and> get_article (ascii ''best-gin'') (snd (delete_article (ascii ''best-gin'')
       [((ascii ''best-gin-20240101120000.json''),
           Parsed (sample_article (ascii ''best-gin'') (ascii ''20240101120000'') (ascii ''Juniper.'') (ascii ''published''))),
        ((ascii ''dry-tonic-20240101120000.json''),
           Parsed (sample_article (ascii ''dry-tonic'') (ascii ''20240101120000'') (ascii ''Quinine.'') (ascii ''draft'')))]))
     = Inr (Message (ascii ''Article not found: best-gin''))
   \<and> list_all (\<lambda>a. dict_get a (ascii ''slug'') \<noteq> Inr (Some (JStr (ascii ''best-gin''))))
       (collect_articles (ascii ''all'') 10 (sorted_reverse (snd (delete_article (ascii ''best-gin'')
         [((ascii ''best-gin-20240101120000.json''),
             Parsed (sample_article (ascii ''best-gin'') (ascii ''20240101120000'') (ascii ''Juniper.'') (ascii ''published''))),
          ((ascii ''dry-tonic-20240101120000.json''),
             Parsed (sample_article (ascii ''dry-tonic'') (ascii ''20240101120000'') (ascii ''Quinine.'') (ascii ''draft'')))]))) [])"
proof -
  have none: "list_all (\<lambda>(name, f). \<not> carries_slug (ascii ''tonic-water'') f)
     [((ascii ''best-gin-20240101120000.json''),
         Parsed (sample_article (ascii ''best-gin'') (ascii ''20240101120000'') (ascii ''Juniper.'') (ascii ''published'')))]"
    by (simp add: sample_article_def)
  have one: "length (filter (\<lambda>(name, f). carries_slug (ascii ''best-gin'') f)
       [((ascii ''best-gin-20240101120000.json''),
           Parsed (sample_article (ascii ''best-gin'') (ascii ''20240101120000'') (ascii ''Juniper.'') (ascii ''published''))),
        ((ascii ''dry-tonic-20240101120000.json''),
           Parsed (sample_article (ascii ''dry-tonic'') (ascii ''20240101120000'') (ascii ''Quinine.'') (ascii ''draft'')))]) = 1"
    by (simp add: sample_article_def)
  from none one
    delete_removes_unique_slug [of "(ascii ''tonic-water'')"
      "[((ascii ''best-gin-20240101120000.json''),
           Parsed (sample_article (ascii ''best-gin'') (ascii ''20240101120000'') (ascii ''Juniper.'') (ascii ''published'')))]"]
    delete_removes_unique_slug [of "(ascii ''best-gin'')"
      "[((ascii ''best-gin-20240101120000.json''),
           Parsed (sample_article (ascii ''best-gin'') (ascii ''20240101120000'') (ascii ''Juniper.'') (ascii ''published''))),
        ((ascii ''dry-tonic-20240101120000.json''),
           Parsed (sample_article (ascii ''dry-tonic'') (ascii ''20240101120000'') (ascii ''Quinine.'') (ascii ''draft'')))]"
      "(ascii ''all'')" 10]
  show ?thesis
    by simp
qed

text \<open>
  The claim as the specification words it fails when two stored records carry the slug:
  the deletion is confirmed, and \<open>get_article\<close> then returns the second record.
\<close>

theorem delete_leaves_duplicate_slug:
  "fst (delete_article (ascii ''best-gin'')
     [((ascii ''best-gin-20240101120000.json''),
         Parsed (sample_article (ascii ''best-gin'') (ascii ''20240101120000'') (ascii ''First.'') (ascii ''published''))),
      ((ascii ''best-gin-20240202120000.json''),
         Parsed (sample_article (ascii ''best-gin'') (ascii ''20240202120000'') (ascii ''Second.'') (ascii ''published'')))])
     = Inr (Message (ascii ''Article deleted: best-gin''))
   \<and> get_article (ascii ''best-gin'') (snd (delete_article (ascii ''best-gin'')
       [((ascii ''best-gin-20240101120000.json''),
           Parsed (sample_article (ascii ''best-gin'') (ascii ''20240101120000'') (ascii ''First.'') (ascii ''published''))),
        ((ascii ''best-gin-20240202120000.json''),
           Parsed (sample_article (ascii ''best-gin'') (ascii ''20240202120000'') (ascii ''Second.'') (ascii ''published'')))]))
     = Inr (Json_text (sample_article (ascii ''best-gin'') (ascii ''20240202120000'') (ascii ''Second.'') (ascii ''published'')))"
  by (simp add: delete_article_def unlink_def sample_article_def)

subsection \<open>Status updates and \<open>publishedAt\<close>\<close>

lemma update_article_status_names:
  "map fst (snd (update_article_status slug status now files)) = map fst files"
proof (cases "first_match slug files")
  case None
  then show ?thesis
    by (simp add: first_match_None update_article_status_miss)
next
  case (Some hit)
  obtain name f where "hit = (name, f)"
    by (cases hit)
  with Some update_article_status_found [of slug files name f status now] show ?thesis
    by (auto simp: rewrite_file_names)
qed

lemma stored_record_unique:
  assumes "distinct (map fst files)" and "map_of files name = Some f" and "(name, g) \<in> set files"
  shows "g = f"
proof -
  from assms(1,3) have "map_of files name = Some g"
    by (rule map_of_is_SomeI)
  with assms(2) show ?thesis
    by simp
qed

lemma update_keeps_set_publishedAt:
  assumes dist: "distinct (map fst files)"
    and stored: "map_of files name = Some (Parsed (JObj kvs))"
    and is_set: "py_bool (map_of kvs (ascii ''publishedAt''))"
  shows "\<exists>kvs'. map_of (snd (update_article_status slug status now files)) name
                  = Some (Parsed (JObj kvs'))
               \<and> map_of kvs' (ascii ''publishedAt'') = map_of kvs (ascii ''publishedAt'')"
proof (cases "first_match slug files")
  case None
  then show ?thesis
    using stored by (simp add: first_match_None update_article_status_miss)
next
  case (Some hit)
  obtain n f where hit: "hit = (n, f)"
    by (cases hit)
  with Some have first: "first_match slug files = Some (n, f)"
    by simp
  from update_article_status_found [OF first, of status now]
  obtain kvs0 where f: "f = Parsed (JObj kvs0)"
    and upd: "snd (update_article_status slug status now files) =
      rewrite_file n
        (Parsed (JObj (if status = (ascii ''published'') \<and> \<not> py_bool (map_of kvs0 (ascii ''publishedAt''))
                       then AList.update (ascii ''publishedAt'') (JStr (isoformat now))
                              (AList.update (ascii ''status'') (JStr status) kvs0)
                       else AList.update (ascii ''status'') (JStr status) kvs0))) files"
    by auto
  show ?thesis
  proof (cases "n = name")
    case True
    from first have "(n, f) \<in> set files"
      by (rule first_match_in_set)
    with True have mem: "(name, f) \<in> set files"
      by simp
    with dist stored have "f = Parsed (JObj kvs)"
      by (rule stored_record_unique)
    with f have kvs0: "kvs0 = kvs"
      by simp
    from mem have "fst (name, f) \<in> fst ` set files"
      by (rule imageI)
    then have "name \<in> fst ` set files"
      by simp
    then have "map_of (snd (update_article_status slug status now files)) name
        = Some (Parsed (JObj (AList.update (ascii ''status'') (JStr status) kvs)))"
      using is_set by (simp add: upd True kvs0 map_of_rewrite_file_same)
    moreover have "map_of (AList.update (ascii ''status'') (JStr status) kvs) (ascii ''publishedAt'')
        = map_of kvs (ascii ''publishedAt'')"
      by (simp add: update_conv')
    ultimately show ?thesis
      by blast
  next
    case False
    then have "map_of (snd (update_article_status slug status now files)) name = map_of files name"
      by (simp add: upd map_of_rewrite_file_other)
    with stored show ?thesis
      by simp
  qed
qed

lemma update_many_keeps_set_publishedAt:
  assumes "distinct (map fst files)"
    and "map_of files name = Some (Parsed (JObj kvs))"
    and "py_bool (map_of kvs (ascii ''publishedAt''))"
  shows "\<exists>kvs'. map_of (update_many calls files) name = Some (Parsed (JObj kvs'))
               \<and> map_of kvs' (ascii ''publishedAt'') = map_of kvs (ascii ''publishedAt'')"
  using assms
proof (induction calls arbitrary: files kvs)
  case Nil
  then show ?case by simp
next
  case (Cons call calls)
  obtain slug status now where call: "call = (slug, status, now)"
    by (cases call)
  let ?files' = "snd (update_article_status slug status now files)"
  from update_keeps_set_publishedAt [OF Cons.prems, of slug status now]
  obtain kvs1 where stored1: "map_of ?files' name = Some (Parsed (JObj kvs1))"
    and same1: "map_of kvs1 (ascii ''publishedAt'') = map_of kvs (ascii ''publishedAt'')"
    by blast
  have dist1: "distinct (map fst ?files')"
    using Cons.prems(1) by (simp only: update_article_status_names)
  have set1: "py_bool (map_of kvs1 (ascii ''publishedAt''))"
    using Cons.prems(3) by (simp only: same1)
  from Cons.IH [OF dist1 stored1 set1]
  obtain kvs' where "map_of (update_many calls ?files') name = Some (Parsed (JObj kvs'))"
    and "map_of kvs' (ascii ''publishedAt'') = map_of kvs1 (ascii ''publishedAt'')"
    by blast
  with same1 show ?case
    by (simp add: call)
qed

lemma update_first_match_field:
  assumes "first_match slug files = Some (name, Parsed (JObj kvs))"
  shows "stored_field (snd (update_article_status slug status now files)) name key =
           map_of (if status = (ascii ''published'') \<and> \<not> py_bool (map_of kvs (ascii ''publishedAt''))
                   then AList.update (ascii ''publishedAt'') (JStr (isoformat now))
                          (AList.update (ascii ''status'') (JStr status) kvs)
                   else AList.update (ascii ''status'') (JStr status) kvs) key"
proof -
  from update_article_status_found [OF assms, of status now]
  have upd: "snd (update_article_status slug status now files) =
      rewrite_file name
        (Parsed (JObj (if status = (ascii ''published'') \<and> \<not> py_bool (map_of kvs (ascii ''publishedAt''))
                       then AList.update (ascii ''publishedAt'') (JStr (isoformat now))
                              (AList.update (ascii ''status'') (JStr status) kvs)
                       else AList.update (ascii ''status'') (JStr status) kvs))) files"
    by auto
  from assms have "(name, Parsed (JObj kvs)) \<in> set files"
    by (rule first_match_in_set)
  then have "fst (name, Parsed (JObj kvs)) \<in> fst ` set files"
    by (rule imageI)
  then have "name \<in> fst ` set files"
    by simp
  then show ?thesis
    by (simp only: upd stored_field_def map_of_rewrite_file_same option.case file_content.case
        json.case)
qed

text \<open>
  Claim C2. For a stored record (files have distinct names), where \<^emph>\<open>unset\<close> is what
  the code tests, \<open>not article.get("publishedAt")\<close>: an update to \<open>published\<close> of a
  record whose \<open>publishedAt\<close> is unset sets it to the clock reading of the call; an
  update to another status leaves it as it is; and once \<open>publishedAt\<close> is set, no
  sequence of status updates, to \<open>draft\<close> or to \<open>published\<close>, on this or any other
  slug, changes it.
\<close>

theorem publishedAt_set_once:
  assumes "distinct (map fst files)" and "map_of files name = Some (Parsed (JObj kvs))"
  shows "(first_match slug files = Some (name, Parsed (JObj kvs))
            \<and> \<not> py_bool (map_of kvs (ascii ''publishedAt'')) \<longrightarrow>
          stored_field (snd (update_article_status slug (ascii ''published'') now files)) name (ascii ''publishedAt'')
            = Some (JStr (isoformat now)))
       \<and> (first_match slug files = Some (name, Parsed (JObj kvs)) \<and> status \<noteq> (ascii ''published'') \<longrightarrow>
          stored_field (snd (update_article_status slug status now files)) name (ascii ''publishedAt'')
            = map_of kvs (ascii ''publishedAt''))
       \<and> (py_bool (map_of kvs (ascii ''publishedAt'')) \<longrightarrow>
          stored_field (update_many calls files) name (ascii ''publishedAt'') = map_of kvs (ascii ''publishedAt''))"
proof (intro conjI impI)
  assume "first_match slug files = Some (name, Parsed (JObj kvs))
            \<and> \<not> py_bool (map_of kvs (ascii ''publishedAt''))"
  then show "stored_field (snd (update_article_status slug (ascii ''published'') now files)) name (ascii ''publishedAt'')
            = Some (JStr (isoformat now))"
    by (simp add: update_first_match_field update_conv')
next
  assume "first_match slug files = Some (name, Parsed (JObj kvs)) \<and> status \<noteq> (ascii ''published'')"
  then show "stored_field (snd (update_article_status slug status now files)) name (ascii ''publishedAt'')
            = map_of kvs (ascii ''publishedAt'')"
    by (simp add: update_first_match_field update_conv')
next
  assume "py_bool (map_of kvs (ascii ''publishedAt''))"
  with assms update_many_keeps_set_publishedAt [of files name kvs calls]
  show "stored_field (update_many calls files) name (ascii ''publishedAt'') = map_of kvs (ascii ''publishedAt'')"
    by (auto simp: stored_field_def)
qed

theorem publishedAt_set_once_witness:
  "distinct (map fst
     [((ascii ''dry-tonic-20240101120000.json''),
         Parsed (JObj [((ascii ''slug''), JStr (ascii ''dry-tonic'')), ((ascii ''status''), JStr (ascii ''draft''))])),
      ((ascii ''best-gin-20240101120000.json''),
         Parsed (JObj [((ascii ''slug''), JStr (ascii ''best-gin'')), ((ascii ''status''), JStr (ascii ''published'')),
                       ((ascii ''publishedAt''), JStr (ascii ''2024-01-01T12:00:00''))]))])
   \<and> first_match (ascii ''dry-tonic'')
       [((ascii ''dry-tonic-20240101120000.json''),
           Parsed (JObj [((ascii ''slug''), JStr (ascii ''dry-tonic'')), ((ascii ''status''), JStr (ascii ''draft''))])),
        ((ascii ''best-gin-20240101120000.json''),
           Parsed (JObj [((ascii ''slug''), JStr (ascii ''best-gin'')), ((ascii ''status''), JStr (ascii ''published'')),
                         ((ascii ''publishedAt''), JStr (ascii ''2024-01-01T12:00:00''))]))]
     = Some ((ascii ''dry-tonic-20240101120000.json''),
           Parsed (JObj [((ascii ''slug''), JStr (ascii ''dry-tonic'')), ((ascii ''status''), JStr (ascii ''draft''))]))
   \<and> \<not> py_bool (map_of [((ascii ''slug''), JStr (ascii ''dry-tonic'')), ((ascii ''status''), JStr (ascii ''draft''))] (ascii ''publishedAt''))
   \<and> stored_field (snd (update_article_status (ascii ''dry-tonic'') (ascii ''published'') sample_clock
       [((ascii ''dry-tonic-20240101120000.json''),
           Parsed (JObj [((ascii ''slug''), JStr (ascii ''dry-tonic'')), ((ascii ''status''), JStr (ascii ''draft''))])),
        ((ascii ''best-gin-20240101120000.json''),
           Parsed (JObj [((ascii ''slug''), JStr (ascii ''best-gin'')), ((ascii ''status''), JStr (ascii ''published'')),
                         ((ascii ''publishedAt''), JStr (ascii ''2024-01-01T12:00:00''))]))]))
       (ascii ''dry-tonic-20240101120000.json'') (ascii ''publishedAt'') = Some (JStr (isoformat sample_clock))
   \<and> stored_field (snd (update_article_status (ascii ''dry-tonic'') (ascii ''archived'') sample_clock
       [((ascii ''dry-tonic-20240101120000.json''),
           Parsed (JObj [((ascii ''slug''), JStr (ascii ''dry-tonic'')), ((ascii ''status''), JStr (ascii ''draft''))])),
        ((ascii ''best-gin-20240101120000.json''),
           Parsed (JObj [((ascii ''slug''), JStr (ascii ''best-gin'')), ((ascii ''status''), JStr (ascii ''published'')),
                         ((ascii ''publishedAt''), JStr (ascii ''2024-01-01T12:00:00''))]))]))
       (ascii ''dry-tonic-20240101120000.json'') (ascii ''publishedAt'') = None
   \<and> py_bool (map_of [((ascii ''slug''), JStr (ascii ''best-gin'')), ((ascii ''status''), JStr (ascii ''published'')),
                       ((ascii ''publishedAt''), JStr (ascii ''2024-01-01T12:00:00''))] (ascii ''publishedAt''))
   \<and> stored_field (update_many
         [((ascii ''best-gin''), (ascii ''draft''), sample_clock), ((ascii ''best-gin''), (ascii ''published''), sample_clock)]
       [((ascii ''dry-tonic-20240101120000.json''),
           Parsed (JObj [((ascii ''slug''), JStr (ascii ''dry-tonic'')), ((ascii ''status''), JStr (ascii ''draft''))])),
        ((ascii ''best-gin-20240101120000.json''),
           Parsed (JObj [((ascii ''slug''), JStr (ascii ''best-gin'')), ((ascii ''status''), JStr (ascii ''published'')),
                         ((ascii ''publishedAt''), JStr (ascii ''2024-01-01T12:00:00''))]))])
       (ascii ''best-gin-20240101120000.json'') (ascii ''publishedAt'') = Some (JStr (ascii ''2024-01-01T12:00:00''))"
proof -
  let ?dry = "[((ascii ''slug''), JStr (ascii ''dry-tonic'')), ((ascii ''status''), JStr (ascii ''draft''))]"
  let ?gin = "[((ascii ''slug''), JStr (ascii ''best-gin'')), ((ascii ''status''), JStr (ascii ''published'')),
               ((ascii ''publishedAt''), JStr (ascii ''2024-01-01T12:00:00''))]"
  let ?files = "[((ascii ''dry-tonic-20240101120000.json''), Parsed (JObj ?dry)),
                 ((ascii ''best-gin-20240101120000.json''), Parsed (JObj ?gin))]"
  have dist: "distinct (map fst ?files)"
    by simp
  have dry: "map_of ?files (ascii ''dry-tonic-20240101120000.json'') = Some (Parsed (JObj ?dry))"
    by simp
  have gin: "map_of ?files (ascii ''best-gin-20240101120000.json'') = Some (Parsed (JObj ?gin))"
    by simp
  have first: "first_match (ascii ''dry-tonic'') ?files
      = Some ((ascii ''dry-tonic-20240101120000.json''), Parsed (JObj ?dry))"
    by (simp add: first_match_def)
  have unset: "\<not> py_bool (map_of ?dry (ascii ''publishedAt''))"
    by simp
  have is_set: "py_bool (map_of ?gin (ascii ''publishedAt''))"
    by simp
  have other: "(ascii ''archived'') \<noteq> (ascii ''published'')"
    by simp
  from dist first unset is_set other
    publishedAt_set_once [OF dist dry, of "(ascii ''dry-tonic'')" sample_clock "(ascii ''archived'')" "[]"]
    publishedAt_set_once [OF dist gin, of "(ascii ''dry-tonic'')" sample_clock "(ascii ''archived'')"
      "[((ascii ''best-gin''), (ascii ''draft''), sample_clock), ((ascii ''best-gin''), (ascii ''published''), sample_clock)]"]
  show ?thesis
    by simp
qed

subsection \<open>Formatting clock readings\<close>

lemma is_digit_digit_char: "d < 10 \<Longrightarrow> is_digit (digit_char d)"
  by (simp add: is_digit_def digit_char_def)

lemma decimal_digits: "list_all is_digit (decimal n)"
proof (induction n rule: decimal.induct)
  case (1 n)
  show ?case
  proof (cases "n < 10")
    case True
    then show ?thesis
      by (subst decimal.simps) (simp add: is_digit_digit_char)
  next
    case False
    with 1 have "list_all is_digit (decimal (n div 10))"
      by simp
    moreover have "is_digit (digit_char (n mod 10))"
      by (rule is_digit_digit_char) simp
    ultimately show ?thesis
      using False by (subst decimal.simps) simp
  qed
qed

lemma length_decimal: "0 < w \<Longrightarrow> n < 10 ^ w \<Longrightarrow> length (decimal n) \<le> w"
proof (induction n arbitrary: w rule: decimal.induct)
  case (1 n)
  show ?case
  proof (cases "n < 10")
    case True
    with "1.prems" show ?thesis
      by (subst decimal.simps) simp
  next
    case False
    from "1.prems" obtain v where w: "w = Suc v"
      by (cases w) auto
    have "0 < v"
    proof (rule ccontr)
      assume "\<not> 0 < v"
      with w "1.prems" False show False by simp
    qed
    moreover from "1.prems" w have "n div 10 < 10 ^ v"
      by (simp add: less_mult_imp_div_less mult.commute)
    ultimately have "length (decimal (n div 10)) \<le> v"
      using "1.IH" False by simp
    with False w show ?thesis
      by (subst decimal.simps) simp
  qed
qed

text \<open>A number of at least \<open>10 ^ w\<close> has more than \<open>w\<close> digits.\<close>

lemma length_decimal_lower: "10 ^ w \<le> n \<Longrightarrow> w < length (decimal n)"
proof (induction n arbitrary: w rule: decimal.induct)
  case (1 n)
  show ?case
  proof (cases "n < 10")
    case True
    have "w = 0"
    proof (rule ccontr)
      assume "w \<noteq> 0"
      then obtain v where "w = Suc v"
        by (cases w) auto
      moreover have "(1::nat) \<le> 10 ^ v"
        by simp
      ultimately have "(10::nat) \<le> 10 ^ w"
        by simp
      with "1.prems" True show False
        by simp
    qed
    then show ?thesis
      by (subst decimal.simps) simp
  next
    case False
    show ?thesis
    proof (cases w)
      case 0
      then show ?thesis
        by (subst decimal.simps) simp
    next
      case (Suc v)
      with "1.prems" have "10 ^ v \<le> n div 10"
        by (simp add: less_eq_div_iff_mult_less_eq mult.commute)
      with False have "v < length (decimal (n div 10))"
        using "1.IH" by simp
      with False Suc show ?thesis
        by (subst decimal.simps) simp
    qed
  qed
qed

lemma matches_pattern_digits:
  "list_all is_digit s \<Longrightarrow> matches_pattern (replicate (length s) CHR ''d'') s"
  by (induction s) auto

lemma matches_pattern_append:
  "matches_pattern p1 s1 \<Longrightarrow> matches_pattern p2 s2 \<Longrightarrow> matches_pattern (p1 @ p2) (s1 @ s2)"
  by (induction p1 s1 rule: matches_pattern.induct) auto

lemma format_d_pattern:
  assumes "0 < w" and "n < 10 ^ w"
  shows "matches_pattern (replicate w CHR ''d'') (format_d w n)"
proof -
  have len: "length (format_d w n) = w"
    using length_decimal [OF assms] by (simp add: format_d_def)
  have "is_digit (digit_char 0)"
    by (simp add: is_digit_digit_char)
  then have "list_all is_digit (format_d w n)"
    using decimal_digits [of n] by (simp add: format_d_def list_all_iff set_replicate_conv_if)
  then have "matches_pattern (replicate (length (format_d w n)) CHR ''d'') (format_d w n)"
    by (rule matches_pattern_digits)
  then show ?thesis
    by (simp only: len)
qed

lemma replicate_d:
  "replicate 2 CHR ''d'' = ''dd''" "replicate 4 CHR ''d'' = ''dddd''"
  "replicate 6 CHR ''d'' = ''dddddd''"
  by (simp_all add: eval_nat_numeral)

lemma format_d_2: "n < 100 \<Longrightarrow> matches_pattern ''dd'' (format_d 2 n)"
  using format_d_pattern [of 2 n] by (simp add: replicate_d)

lemma format_d_4: "n < 10000 \<Longrightarrow> matches_pattern ''dddd'' (format_d 4 n)"
  using format_d_pattern [of 4 n] by (simp add: replicate_d)

lemma format_d_6: "n < 1000000 \<Longrightarrow> matches_pattern ''dddddd'' (format_d 6 n)"
  using format_d_pattern [of 6 n] by (simp add: replicate_d)

text \<open>A year of four digits needs no padding.\<close>

lemma decimal_year:
  assumes "1000 \<le> n" and "n \<le> 9999"
  shows "matches_pattern ''dddd'' (decimal n)"
proof -
  from assms(1) have "10 ^ 3 \<le> n"
    by simp
  then have "3 < length (decimal n)"
    by (rule length_decimal_lower)
  then have "format_d 4 n = decimal n"
    by (simp add: format_d_def)
  with format_d_4 [of n] assms(2) show ?thesis
    by simp
qed

lemma strftime_pattern:
  assumes "valid_datetime d" and "1000 \<le> year d"
  shows "matches_pattern ''dddddddddddddd'' (strftime_YmdHMS d)"
proof -
  from assms have y: "matches_pattern ''dddd'' (decimal (year d))"
    by (simp add: valid_datetime_def decimal_year)
  from assms have m: "matches_pattern ''dd'' (format_d 2 (month d))"
    and dd: "matches_pattern ''dd'' (format_d 2 (day d))"
    and h: "matches_pattern ''dd'' (format_d 2 (hour d))"
    and mi: "matches_pattern ''dd'' (format_d 2 (minute d))"
    and s: "matches_pattern ''dd'' (format_d 2 (second d))"
    by (simp_all add: valid_datetime_def format_d_2)
  have "matches_pattern (''dddd'' @ ''dd'' @ ''dd'' @ ''dd'' @ ''dd'' @ ''dd'') (strftime_YmdHMS d)"
    unfolding strftime_YmdHMS_def
    by (intro matches_pattern_append y m dd h mi s)
  then show ?thesis
    by simp
qed

lemma hyphen_pattern: "matches_pattern ''-'' (ascii ''-'')"
  and colon_pattern: "matches_pattern '':'' (ascii '':'')"
  and T_pattern: "matches_pattern ''T'' (ascii ''T'')"
  and dot_pattern: "matches_pattern ''.'' (ascii ''.'')"
  by (simp_all add: ascii_def)

lemma isoformat_pattern:
  assumes "valid_datetime d"
  shows "is_iso_timestamp (isoformat d)"
proof -
  from assms have y: "matches_pattern ''dddd'' (format_d 4 (year d))"
    and m: "matches_pattern ''dd'' (format_d 2 (month d))"
    and dd: "matches_pattern ''dd'' (format_d 2 (day d))"
    and h: "matches_pattern ''dd'' (format_d 2 (hour d))"
    and mi: "matches_pattern ''dd'' (format_d 2 (minute d))"
    and s: "matches_pattern ''dd'' (format_d 2 (second d))"
    and us: "matches_pattern ''dddddd'' (format_d 6 (microsecond d))"
    by (simp_all add: valid_datetime_def format_d_2 format_d_4 format_d_6)
  have seconds: "matches_pattern
      (''dddd'' @ ''-'' @ ''dd'' @ ''-'' @ ''dd'' @ ''T'' @ ''dd'' @ '':'' @ ''dd'' @ '':'' @ ''dd'')
      (format_d 4 (year d) @ ascii ''-'' @ format_d 2 (month d) @ ascii ''-'' @ format_d 2 (day d)
        @ ascii ''T'' @ format_d 2 (hour d) @ ascii '':'' @ format_d 2 (minute d)
        @ ascii '':'' @ format_d 2 (second d))"
    by (intro matches_pattern_append y m dd h mi s hyphen_pattern colon_pattern T_pattern)
  show ?thesis
  proof (cases "microsecond d = 0")
    case True
    with seconds show ?thesis
      by (simp add: is_iso_timestamp_def isoformat_def)
  next
    case False
    have "matches_pattern
      ((''dddd'' @ ''-'' @ ''dd'' @ ''-'' @ ''dd'' @ ''T'' @ ''dd'' @ '':'' @ ''dd'' @ '':'' @ ''dd'')
         @ ''.'' @ ''dddddd'')
      ((format_d 4 (year d) @ ascii ''-'' @ format_d 2 (month d) @ ascii ''-'' @ format_d 2 (day d)
        @ ascii ''T'' @ format_d 2 (hour d) @ ascii '':'' @ format_d 2 (minute d)
        @ ascii '':'' @ format_d 2 (second d))
         @ ascii ''.'' @ format_d 6 (microsecond d))"
      by (intro matches_pattern_append seconds us dot_pattern)
    with False show ?thesis
      by (simp add: is_iso_timestamp_def isoformat_def)
  qed
qed

lemma article_id_well_formed:
  assumes "valid_datetime d" and "1000 \<le> year d"
  shows "is_article_id slug (slug @ ascii ''-'' @ strftime_YmdHMS d)"
proof -
  have "matches_pattern (''-'' @ ''dddddddddddddd'') (ascii ''-'' @ strftime_YmdHMS d)"
    by (intro matches_pattern_append hyphen_pattern strftime_pattern assms)
  then show ?thesis
    by (simp add: is_article_id_def)
qed

lemma strftime_sample_clock: "strftime_YmdHMS sample_clock = ascii ''20240309080507''"
  by code_simp

lemma isoformat_sample_clock: "isoformat sample_clock = ascii ''2024-03-09T08:05:07''"
  by code_simp

lemma sample_clock_valid: "valid_datetime sample_clock" "1000 \<le> year sample_clock"
  by (simp_all add: valid_datetime_def sample_clock_def)

text \<open>Before the year 1000 the identifier has fewer than fourteen digits.\<close>

lemma strftime_year_999:
  "strftime_YmdHMS \<lparr>year = 999, month = 1, day = 2, hour = 3, minute = 4, second = 5,
      microsecond = 0\<rparr> = ascii ''9990102030405''"
  by code_simp

subsection \<open>Creating an article\<close>

lemma rewrite_file_members:
  "(name, f) \<in> set (rewrite_file p new files) \<Longrightarrow>
     (name = p \<and> f = new) \<or> ((name, f) \<in> set files \<and> name \<noteq> p)"
  by (auto simp: rewrite_file_def split: if_splits)

lemma rewrite_file_has_new:
  assumes "p \<in> fst ` set files"
  shows "(p, new) \<in> set (rewrite_file p new files)"
proof -
  from assms obtain old where "(p, old) \<in> set files"
    by auto
  then have "(\<lambda>(name, old). if name = p then (name, new) else (name, old)) (p, old)
      \<in> (\<lambda>(name, old). if name = p then (name, new) else (name, old)) ` set files"
    by (rule imageI)
  then show ?thesis
    by (simp add: rewrite_file_def)
qed

lemma write_file_has_new: "(p, new) \<in> set (write_file dir_pos p new files)"
  by (simp add: write_file_def rewrite_file_has_new)

lemma write_file_members:
  assumes "(name, f) \<in> set (write_file dir_pos p new files)"
  shows "(name = p \<and> f = new) \<or> ((name, f) \<in> set files \<and> name \<noteq> p)"
proof (cases "p \<in> fst ` set files")
  case True
  with assms show ?thesis
    by (simp add: write_file_def rewrite_file_members)
next
  case False
  with assms have "(name, f) = (p, new) \<or> (name, f) \<in> set (take dir_pos files)
      \<or> (name, f) \<in> set (drop dir_pos files)"
    by (auto simp: write_file_def)
  then have "(name, f) = (p, new) \<or> (name, f) \<in> set files"
    by (auto dest: in_set_takeD in_set_dropD)
  moreover have "name \<noteq> p" if "(name, f) \<in> set files"
  proof
    assume "name = p"
    with that have "(p, f) \<in> set files"
      by simp
    then have "fst (p, f) \<in> fst ` set files"
      by (rule imageI)
    with False show False
      by simp
  qed
  ultimately show ?thesis
    by auto
qed

text \<open>
  In the directory after a write, the first file of the given name holds what was
  written.
\<close>

lemma write_file_split:
  "\<exists>rest. write_file dir_pos p new files =
     enumerated_before p (write_file dir_pos p new files) @ (p, new) # rest"
proof -
  define fs where "fs = write_file dir_pos p new files"
  define P where "P = (\<lambda>(name, f :: file_content). name \<noteq> p)"
  have mem: "(p, new) \<in> set fs"
    unfolding fs_def by (rule write_file_has_new)
  have "dropWhile P fs \<noteq> []"
  proof
    assume "dropWhile P fs = []"
    then have "\<forall>x\<in>set fs. P x"
      by (simp only: dropWhile_eq_Nil_conv)
    with mem have "P (p, new)"
      by blast
    then show False
      by (simp add: P_def)
  qed
  then obtain x rest where drop: "dropWhile P fs = x # rest"
    by (cases "dropWhile P fs") auto
  have "\<not> P (hd (dropWhile P fs))"
    using \<open>dropWhile P fs \<noteq> []\<close> by (rule hd_dropWhile)
  with drop have notP: "\<not> P x"
    by simp
  obtain name f where x: "x = (name, f)"
    by (cases x)
  with notP have name: "name = p"
    by (simp add: P_def)
  have "x \<in> set (dropWhile P fs)"
    by (simp add: drop)
  then have "x \<in> set fs"
    by (rule set_dropWhileD)
  with x name have "(p, f) \<in> set (write_file dir_pos p new files)"
    by (simp add: fs_def)
  then have "f = new"
    by (auto dest: write_file_members)
  with x name drop have "dropWhile P fs = (p, new) # rest"
    by simp
  moreover have "fs = takeWhile P fs @ dropWhile P fs"
    by simp
  ultimately have "fs = takeWhile P fs @ (p, new) # rest"
    by simp
  then show ?thesis
    unfolding fs_def enumerated_before_def P_def by blast
qed

lemma enumerated_before_members:
  assumes "(name, f) \<in> set (enumerated_before p (write_file dir_pos p new files))"
  shows "(name, f) \<in> set files \<and> name \<noteq> p"
proof -
  from assms have "(name, f) \<in> set (write_file dir_pos p new files)"
    unfolding enumerated_before_def by (rule set_takeWhileD [THEN conjunct1])
  moreover from assms have "name \<noteq> p"
    unfolding enumerated_before_def by (auto dest: set_takeWhileD)
  ultimately show ?thesis
    by (auto dest: write_file_members)
qed

lemma first_match_append_Some:
  "first_match slug before = Some hit \<Longrightarrow> first_match slug (before @ files) = Some hit"
  by (induction before) (auto simp: first_match_def)

text \<open>
  \<open>get_article\<close> after a write: the new record, unless a record with the slug is
  enumerated before it.
\<close>

lemma write_then_get_new:
  assumes carries: "carries_slug slug (Parsed a)"
    and none: "first_match slug (enumerated_before p (write_file dir_pos p (Parsed a) files)) = None"
  shows "get_article slug (write_file dir_pos p (Parsed a) files) = Inr (Json_text a)"
proof -
  obtain rest where split: "write_file dir_pos p (Parsed a) files =
      enumerated_before p (write_file dir_pos p (Parsed a) files) @ (p, Parsed a) # rest"
    using write_file_split by blast
  from carries obtain kvs where a: "a = JObj kvs"
    and slug: "map_of kvs (ascii ''slug'') = Some (JStr slug)"
    by (auto elim: carries_slug_obj)
  from none have "list_all (\<lambda>(name, f). \<not> carries_slug slug f)
      (enumerated_before p (write_file dir_pos p (Parsed a) files))"
    by (simp only: first_match_None)
  then have "get_article slug (enumerated_before p (write_file dir_pos p (Parsed a) files)
        @ (p, Parsed a) # rest) = get_article slug ((p, Parsed a) # rest)"
    by (rule get_article_append)
  also have "\<dots> = Inr (Json_text a)"
    unfolding a using slug by (rule get_article_hit)
  finally show ?thesis
    using split by simp
qed

lemma write_then_get_older:
  assumes "first_match slug (enumerated_before p (write_file dir_pos p new files)) = Some (name, f)"
  shows "\<exists>b. f = Parsed b \<and> (name, f) \<in> set files \<and> name \<noteq> p
           \<and> get_article slug (write_file dir_pos p new files) = Inr (Json_text b)"
proof -
  obtain rest where split: "write_file dir_pos p new files =
      enumerated_before p (write_file dir_pos p new files) @ (p, new) # rest"
    using write_file_split by blast
  from assms have "first_match slug (enumerated_before p (write_file dir_pos p new files)
      @ (p, new) # rest) = Some (name, f)"
    by (rule first_match_append_Some)
  with split have "first_match slug (write_file dir_pos p new files) = Some (name, f)"
    by simp
  then obtain kvs where "f = Parsed (JObj kvs)"
    and "get_article slug (write_file dir_pos p new files) = Inr (Json_text (JObj kvs))"
    using get_article_found by blast
  moreover from assms
  have "(name, f) \<in> set (enumerated_before p (write_file dir_pos p new files))"
    by (rule first_match_in_set)
  then have "(name, f) \<in> set files \<and> name \<noteq> p"
    by (rule enumerated_before_members)
  ultimately show ?thesis
    by blast
qed

text \<open>The two ways in which \<open>save_article\<close> ends.\<close>

lemma save_article_cases:
  "save_article u title content meta_description primary_keyword secondary_keywords image_url
       schema_markup clock_id clock_now dir_pos files =
     (case open_w_error (new_file_name u title clock_id) of
        Some e \<Rightarrow> (Inl e, files)
      | None \<Rightarrow>
          (Inr (Message (ascii ''Article saved successfully!'' @ [10] @ ascii ''ID: ''
                  @ new_id u title clock_id
                  @ [10] @ ascii ''Slug: '' @ slugify u title
                  @ [10] @ ascii ''Path: '' @ ARTICLES_DIR @ ascii ''/''
                  @ new_file_name u title clock_id)),
           write_file dir_pos (new_file_name u title clock_id)
             (Parsed (new_article (new_id u title clock_id) (slugify u title) title content
                        meta_description primary_keyword secondary_keywords image_url
                        schema_markup (isoformat clock_now))) files))"
  by (simp add: save_article_def Let_def new_id_def new_file_name_def split: option.split)

lemma save_article_returned:
  assumes "save_article u title content meta_description primary_keyword secondary_keywords
       image_url schema_markup clock_id clock_now dir_pos files = (Inr r, files')"
  shows "open_w_error (new_file_name u title clock_id) = None"
    and "files' = write_file dir_pos (new_file_name u title clock_id)
             (Parsed (new_article (new_id u title clock_id) (slugify u title) title content
                        meta_description primary_keyword secondary_keywords image_url
                        schema_markup (isoformat clock_now))) files"
  using assms by (simp_all add: save_article_cases split: option.splits)

lemma save_article_raised:
  assumes "save_article u title content meta_description primary_keyword secondary_keywords
       image_url schema_markup clock_id clock_now dir_pos files = (Inl e, files')"
  shows "open_w_error (new_file_name u title clock_id) = Some e" and "files' = files"
  using assms by (simp_all add: save_article_cases split: option.splits)

lemma new_article_fields:
  "dict_get (new_article i slug title content meta_description primary_keyword
       secondary_keywords image_url schema_markup now) key =
     Inr (map_of
       [(ascii ''id'', JStr i),
        (ascii ''slug'', JStr slug),
        (ascii ''title'', JStr title),
        (ascii ''metaDescription'', JStr meta_description),
        (ascii ''content'', JStr content),
        (ascii ''primaryKeyword'', JStr primary_keyword),
        (ascii ''secondaryKeywords'', JList (map JStr secondary_keywords)),
        (ascii ''imageUrl'', JStr image_url),
        (ascii ''imageAlt'', JStr (title @ ascii '' - Premium Gin and Tonic Guide'')),
        (ascii ''schemaMarkup'', schema_or_default schema_markup title meta_description),
        (ascii ''status'', JStr (ascii ''published'')),
        (ascii ''createdAt'', JStr now),
        (ascii ''publishedAt'', JStr now)] key)"
  by (simp add: new_article_def)

lemma new_article_carries_slug:
  "carries_slug slug (Parsed (new_article i slug title content meta_description primary_keyword
       secondary_keywords image_url schema_markup now))"
  by (simp add: new_article_def)

lemma stored_new_article:
  "stored_field (write_file dir_pos p (Parsed (new_article i slug title content meta_description
       primary_keyword secondary_keywords image_url schema_markup now)) files) p key =
     map_of
       [(ascii ''id'', JStr i),
        (ascii ''slug'', JStr slug),
        (ascii ''title'', JStr title),
        (ascii ''metaDescription'', JStr meta_description),
        (ascii ''content'', JStr content),
        (ascii ''primaryKeyword'', JStr primary_keyword),
        (ascii ''secondaryKeywords'', JList (map JStr secondary_keywords)),
        (ascii ''imageUrl'', JStr image_url),
        (ascii ''imageAlt'', JStr (title @ ascii '' - Premium Gin and Tonic Guide'')),
        (ascii ''schemaMarkup'', schema_or_default schema_markup title meta_description),
        (ascii ''status'', JStr (ascii ''published'')),
        (ascii ''createdAt'', JStr now),
        (ascii ''publishedAt'', JStr now)] key"
  by (simp add: stored_field_def map_of_write_file_same new_article_def)

lemma new_id_well_formed:
  "valid_datetime clock_id \<Longrightarrow> 1000 \<le> year clock_id \<Longrightarrow>
     is_article_id (slugify u title) (new_id u title clock_id)"
  unfolding new_id_def by (rule article_id_well_formed)

text \<open>The sample call: the title \<open>Best Gin\<close> at the sample clock reading.\<close>

lemma new_id_best_gin:
  "new_id basic_ucd (ascii ''Best Gin'') sample_clock = ascii ''best-gin-20240309080507''"
  by (simp add: new_id_def slugify_best_gin_basic strftime_sample_clock)

lemma new_file_name_best_gin:
  "new_file_name basic_ucd (ascii ''Best Gin'') sample_clock = ascii ''best-gin-20240309080507.json''"
  by (simp add: new_file_name_def new_id_best_gin)

text \<open>A file name of ASCII characters without slash and null is refused only for its length.\<close>

lemma utf8_length_ascii: "list_all (\<lambda>c. c < 128) s \<Longrightarrow> sum_list (map utf8_length s) = length s"
  by (induction s) (simp_all add: utf8_length_def)

lemma open_w_error_ascii:
  assumes "list_all (\<lambda>c. c < 128 \<and> c \<noteq> 0 \<and> c \<noteq> 47) name"
  shows "open_w_error name = (if NAME_MAX < length name then Some OSError else None)"
proof -
  from assms have "list_all (\<lambda>c. c < 128) name"
    by (simp add: list_all_iff)
  then have bytes: "sum_list (map utf8_length name) = length name"
    by (rule utf8_length_ascii)
  from assms have no_surrogate: "\<not> list_ex lone_surrogate name"
    by (auto simp: list_all_iff list_ex_iff lone_surrogate_def)
  from assms have no_nul: "0 \<notin> set name" and no_slash: "47 \<notin> set name"
    by (auto simp: list_all_iff)
  show ?thesis
    unfolding open_w_error_def using no_surrogate no_nul no_slash bytes by simp
qed

lemma open_best_gin: "open_w_error (ascii ''best-gin-20240309080507.json'') = None"
proof -
  have "list_all (\<lambda>c. c < 128 \<and> c \<noteq> 0 \<and> c \<noteq> 47) (ascii ''best-gin-20240309080507.json'')"
    by code_simp
  then have "open_w_error (ascii ''best-gin-20240309080507.json'')
      = (if NAME_MAX < length (ascii ''best-gin-20240309080507.json'') then Some OSError else None)"
    by (rule open_w_error_ascii)
  moreover have "length (ascii ''best-gin-20240309080507.json'') = 28"
    by (simp add: ascii_def)
  ultimately show ?thesis
    by (simp add: NAME_MAX_def)
qed

lemma save_best_gin:
  "save_article basic_ucd (ascii ''Best Gin'') content meta_description primary_keyword
       secondary_keywords image_url schema_markup sample_clock sample_clock dir_pos files
     = (Inr (Message (ascii ''Article saved successfully!'' @ [10]
              @ ascii ''ID: best-gin-20240309080507'' @ [10]
              @ ascii ''Slug: best-gin'' @ [10]
              @ ascii ''Path: articles_data/best-gin-20240309080507.json'')),
        write_file dir_pos (ascii ''best-gin-20240309080507.json'')
          (Parsed (new_article (ascii ''best-gin-20240309080507'') (ascii ''best-gin'')
             (ascii ''Best Gin'') content meta_description primary_keyword secondary_keywords
             image_url schema_markup (ascii ''2024-03-09T08:05:07''))) files)"
  by (simp add: save_article_cases open_best_gin new_id_best_gin new_file_name_best_gin
      slugify_best_gin_basic isoformat_sample_clock ARTICLES_DIR_def)

text \<open>A title of letters \<open>a\<close>: from 236 letters on, the file name has more than 255 bytes.\<close>

lemma successively_letters:
  "successively (\<lambda>a b. \<not> (a = hyphen \<and> b = hyphen)) (replicate n 97)"
  by (induction n) (auto simp: successively_Cons hyphen_def)

lemma slugify_letters: "slugify basic_ucd (replicate n 97) = replicate n 97"
proof (rule slugify_fixed)
  show "str_lower basic_ucd (replicate n 97) = replicate n 97"
    by (simp add: basic_ucd_def ascii_lower_char_def)
  show "c = hyphen \<or> (is_word basic_ucd c \<and> \<not> is_space basic_ucd c)"
    if "c \<in> set (replicate n 97)" for c
    using that by (simp add: basic_ucd_def ascii_word_def ascii_space_def)
  show "successively (\<lambda>a b. \<not> (a = hyphen \<and> b = hyphen)) (replicate n 97)"
    by (rule successively_letters)
  show "str_strip [hyphen] (replicate n 97) = replicate n 97"
    by (simp add: str_strip_def hyphen_def dropWhile_replicate)
qed

lemma open_long_title:
  assumes "235 < n"
  shows "open_w_error (new_file_name basic_ucd (replicate n 97) sample_clock) = Some OSError"
proof -
  define name where "name = replicate n 97 @ ascii ''-20240309080507.json''"
  have name: "new_file_name basic_ucd (replicate n 97) sample_clock = name"
    by (simp add: name_def new_file_name_def new_id_def slugify_letters strftime_sample_clock)
  have tail: "list_all (\<lambda>c. c < 128 \<and> c \<noteq> 0 \<and> c \<noteq> 47) (ascii ''-20240309080507.json'')"
    by code_simp
  have len: "length (ascii ''-20240309080507.json'') = 20"
    by (simp add: ascii_def)
  have "list_all (\<lambda>c. c < 128 \<and> c \<noteq> 0 \<and> c \<noteq> 47) name"
    using tail by (auto simp: name_def list_all_iff)
  then have "open_w_error name = (if NAME_MAX < length name then Some OSError else None)"
    by (rule open_w_error_ascii)
  with assms show ?thesis
    by (simp add: name name_def len NAME_MAX_def)
qed

text \<open>
  Claim C4, as the code has it. \<open>save_article\<close> ends in one of two ways. When the
  operating system refuses the file name \<open>{id}.json\<close>, \<open>open\<close> raises, the tool
  raises with it and the directory is as before: no record is stored. Otherwise the
  tool returns, and the file \<open>{id}.json\<close> of the directory holds a record whose
  \<open>slug\<close> is \<open>slugify(title)\<close>, whose \<open>id\<close> is the slug, a hyphen and the
  \<open>strftime('%Y%m%d%H%M%S')\<close> of the clock reading taken for the identifier, whose
  \<open>status\<close> is \<open>published\<close> and whose \<open>publishedAt\<close> equals its \<open>createdAt\<close>,
  the ISO form of the clock reading taken for the timestamps. The identifier ends in
  fourteen digits when the year of the clock has four. The title \<open>Best Gin\<close> gives the
  slug \<open>best-gin\<close> under every Unicode table that is Python's on ASCII.
\<close>

theorem save_article_postcondition:
  "(case save_article u title content meta_description primary_keyword secondary_keywords
           image_url schema_markup clock_id clock_now dir_pos files of
      (Inl e, files') \<Rightarrow>
        open_w_error (new_file_name u title clock_id) = Some e \<and> files' = files
    | (Inr r, files') \<Rightarrow>
        open_w_error (new_file_name u title clock_id) = None
        \<and> stored_field files' (new_file_name u title clock_id) (ascii ''slug'')
            = Some (JStr (slugify u title))
        \<and> stored_field files' (new_file_name u title clock_id) (ascii ''id'')
            = Some (JStr (slugify u title @ ascii ''-'' @ strftime_YmdHMS clock_id))
        \<and> stored_field files' (new_file_name u title clock_id) (ascii ''status'')
            = Some (JStr (ascii ''published''))
        \<and> stored_field files' (new_file_name u title clock_id) (ascii ''createdAt'')
            = Some (JStr (isoformat clock_now))
        \<and> stored_field files' (new_file_name u title clock_id) (ascii ''publishedAt'')
            = stored_field files' (new_file_name u title clock_id) (ascii ''createdAt''))
   \<and> new_file_name u title clock_id
       = slugify u title @ ascii ''-'' @ strftime_YmdHMS clock_id @ ascii ''.json''
   \<and> (valid_datetime clock_id \<and> 1000 \<le> year clock_id \<longrightarrow>
        is_article_id (slugify u title) (slugify u title @ ascii ''-'' @ strftime_YmdHMS clock_id))
   \<and> (ascii_conformant u \<longrightarrow> slugify u (ascii ''Best Gin'') = ascii ''best-gin'')"
proof (intro conjI)
  show "case save_article u title content meta_description primary_keyword secondary_keywords
           image_url schema_markup clock_id clock_now dir_pos files of
      (Inl e, files') \<Rightarrow>
        open_w_error (new_file_name u title clock_id) = Some e \<and> files' = files
    | (Inr r, files') \<Rightarrow>
        open_w_error (new_file_name u title clock_id) = None
        \<and> stored_field files' (new_file_name u title clock_id) (ascii ''slug'')
            = Some (JStr (slugify u title))
        \<and> stored_field files' (new_file_name u title clock_id) (ascii ''id'')
            = Some (JStr (slugify u title @ ascii ''-'' @ strftime_YmdHMS clock_id))
        \<and> stored_field files' (new_file_name u title clock_id) (ascii ''status'')
            = Some (JStr (ascii ''published''))
        \<and> stored_field files' (new_file_name u title clock_id) (ascii ''createdAt'')
            = Some (JStr (isoformat clock_now))
        \<and> stored_field files' (new_file_name u title clock_id) (ascii ''publishedAt'')
            = stored_field files' (new_file_name u title clock_id) (ascii ''createdAt'')"
  proof (cases "open_w_error (new_file_name u title clock_id)")
    case None
    then show ?thesis
      by (simp add: save_article_cases stored_new_article new_id_def)
  next
    case (Some e)
    then show ?thesis
      by (simp add: save_article_cases)
  qed
  show "new_file_name u title clock_id
       = slugify u title @ ascii ''-'' @ strftime_YmdHMS clock_id @ ascii ''.json''"
    by (simp add: new_file_name_def new_id_def)
  show "valid_datetime clock_id \<and> 1000 \<le> year clock_id \<longrightarrow>
        is_article_id (slugify u title) (slugify u title @ ascii ''-'' @ strftime_YmdHMS clock_id)"
    by (simp add: article_id_well_formed)
  show "ascii_conformant u \<longrightarrow> slugify u (ascii ''Best Gin'') = ascii ''best-gin''"
    by (simp add: slugify_best_gin)
qed

theorem save_article_postcondition_witness:
  "fst (save_article basic_ucd (ascii ''Best Gin'') (ascii ''Juniper first.'')
         (ascii ''A guide to gin.'') (ascii ''gin'') [ascii ''tonic'', ascii ''lime'']
         (ascii ''/images/gin.jpg'') None sample_clock sample_clock 0 [])
     = Inr (Message (ascii ''Article saved successfully!'' @ [10]
              @ ascii ''ID: best-gin-20240309080507'' @ [10]
              @ ascii ''Slug: best-gin'' @ [10]
              @ ascii ''Path: articles_data/best-gin-20240309080507.json''))
   \<and> stored_field (snd (save_article basic_ucd (ascii ''Best Gin'') (ascii ''Juniper first.'')
         (ascii ''A guide to gin.'') (ascii ''gin'') [ascii ''tonic'', ascii ''lime'']
         (ascii ''/images/gin.jpg'') None sample_clock sample_clock 0 []))
       (ascii ''best-gin-20240309080507.json'') (ascii ''slug'')
     = Some (JStr (ascii ''best-gin''))
   \<and> stored_field (snd (save_article basic_ucd (ascii ''Best Gin'') (ascii ''Juniper first.'')
         (ascii ''A guide to gin.'') (ascii ''gin'') [ascii ''tonic'', ascii ''lime'']
         (ascii ''/images/gin.jpg'') None sample_clock sample_clock 0 []))
       (ascii ''best-gin-20240309080507.json'') (ascii ''id'')
     = Some (JStr (ascii ''best-gin-20240309080507''))
   \<and> stored_field (snd (save_article basic_ucd (ascii ''Best Gin'') (ascii ''Juniper first.'')
         (ascii ''A guide to gin.'') (ascii ''gin'') [ascii ''tonic'', ascii ''lime'']
         (ascii ''/images/gin.jpg'') None sample_clock sample_clock 0 []))
       (ascii ''best-gin-20240309080507.json'') (ascii ''status'')
     = Some (JStr (ascii ''published''))
   \<and> stored_field (snd (save_article basic_ucd (ascii ''Best Gin'') (ascii ''Juniper first.'')
         (ascii ''A guide to gin.'') (ascii ''gin'') [ascii ''tonic'', ascii ''lime'']
         (ascii ''/images/gin.jpg'') None sample_clock sample_clock 0 []))
       (ascii ''best-gin-20240309080507.json'') (ascii ''publishedAt'')
     = Some (JStr (ascii ''2024-03-09T08:05:07''))
   \<and> stored_field (snd (save_article basic_ucd (ascii ''Best Gin'') (ascii ''Juniper first.'')
         (ascii ''A guide to gin.'') (ascii ''gin'') [ascii ''tonic'', ascii ''lime'']
         (ascii ''/images/gin.jpg'') None sample_clock sample_clock 0 []))
       (ascii ''best-gin-20240309080507.json'') (ascii ''createdAt'')
     = Some (JStr (ascii ''2024-03-09T08:05:07''))
   \<and> valid_datetime sample_clock \<and> 1000 \<le> year sample_clock
   \<and> is_article_id (ascii ''best-gin'') (ascii ''best-gin-20240309080507'')
   \<and> ascii_conformant basic_ucd
   \<and> slugify basic_ucd (ascii ''Best Gin'') = ascii ''best-gin''"
proof -
  from sample_clock_valid basic_ucd_conformant
    save_article_postcondition [where u = basic_ucd and title = "ascii ''Best Gin''"
      and content = "ascii ''Juniper first.''" and meta_description = "ascii ''A guide to gin.''"
      and primary_keyword = "ascii ''gin''"
      and secondary_keywords = "[ascii ''tonic'', ascii ''lime'']"
      and image_url = "ascii ''/images/gin.jpg''" and schema_markup = None
      and clock_id = sample_clock and clock_now = sample_clock and dir_pos = 0 and files = "[]"]
  show ?thesis
    by (simp add: save_best_gin new_file_name_best_gin slugify_best_gin_basic
        strftime_sample_clock isoformat_sample_clock)
qed

text \<open>
  The claim as the specification words it, for every title, fails for a long title: with
  236 letters \<open>a\<close> the file name has 256 bytes, \<open>open\<close> raises \<open>OSError\<close> and nothing
  is stored.
\<close>

theorem save_article_long_title_raises:
  "save_article basic_ucd (replicate 236 97) (ascii ''Juniper first.'') (ascii ''A guide to gin.'')
       (ascii ''gin'') [ascii ''tonic'', ascii ''lime''] (ascii ''/images/gin.jpg'') None
       sample_clock sample_clock 0 []
     = (Inl OSError, [])"
proof -
  have "open_w_error (new_file_name basic_ucd (replicate 236 97) sample_clock) = Some OSError"
    by (rule open_long_title) simp
  then show ?thesis
    by (simp only: save_article_cases option.case)
qed

text \<open>
  Claim C3, as the code has it. When \<open>save_article\<close> returns, \<open>get_article\<close> on the slug
  of the new article returns the first record of the enumeration that carries the slug.
  If no record with the slug is enumerated before the new file, this is the new record:
  its title, meta description, content, primary keyword, secondary keywords and image
  URL are those that were passed in, and its \<open>id\<close>, \<open>createdAt\<close> and \<open>publishedAt\<close>
  are present and well-formed (for a clock whose year has four digits). Otherwise it is
  the first such record, an older one of the directory.
\<close>

theorem save_then_get_roundtrip:
  assumes "save_article u title content meta_description primary_keyword secondary_keywords
             image_url schema_markup clock_id clock_now dir_pos files = (Inr r, files')"
    and "valid_datetime clock_id" and "1000 \<le> year clock_id" and "valid_datetime clock_now"
  shows "(first_match (slugify u title)
            (enumerated_before (new_file_name u title clock_id) files') = None \<longrightarrow>
          (\<exists>a. get_article (slugify u title) files' = Inr (Json_text a)
            \<and> dict_get a (ascii ''title'') = Inr (Some (JStr title))
            \<and> dict_get a (ascii ''metaDescription'') = Inr (Some (JStr meta_description))
            \<and> dict_get a (ascii ''content'') = Inr (Some (JStr content))
            \<and> dict_get a (ascii ''primaryKeyword'') = Inr (Some (JStr primary_keyword))
            \<and> dict_get a (ascii ''secondaryKeywords'')
                = Inr (Some (JList (map JStr secondary_keywords)))
            \<and> dict_get a (ascii ''imageUrl'') = Inr (Some (JStr image_url))
            \<and> (\<exists>i. dict_get a (ascii ''id'') = Inr (Some (JStr i))
                  \<and> is_article_id (slugify u title) i)
            \<and> (\<exists>t. dict_get a (ascii ''createdAt'') = Inr (Some (JStr t)) \<and> is_iso_timestamp t)
            \<and> (\<exists>t. dict_get a (ascii ''publishedAt'') = Inr (Some (JStr t))
                  \<and> is_iso_timestamp t)))
       \<and> (\<forall>name f. first_match (slugify u title)
                      (enumerated_before (new_file_name u title clock_id) files') = Some (name, f) \<longrightarrow>
            (\<exists>b. f = Parsed b \<and> (name, f) \<in> set files \<and> name \<noteq> new_file_name u title clock_id
               \<and> get_article (slugify u title) files' = Inr (Json_text b)))"
proof -
  define a where "a = new_article (new_id u title clock_id) (slugify u title) title content
      meta_description primary_keyword secondary_keywords image_url schema_markup
      (isoformat clock_now)"
  from assms(1) have files': "files' = write_file dir_pos (new_file_name u title clock_id)
      (Parsed a) files"
    unfolding a_def by (rule save_article_returned(2))
  have carries: "carries_slug (slugify u title) (Parsed a)"
    unfolding a_def by (rule new_article_carries_slug)
  have fields: "dict_get a (ascii ''title'') = Inr (Some (JStr title))
      \<and> dict_get a (ascii ''metaDescription'') = Inr (Some (JStr meta_description))
      \<and> dict_get a (ascii ''content'') = Inr (Some (JStr content))
      \<and> dict_get a (ascii ''primaryKeyword'') = Inr (Some (JStr primary_keyword))
      \<and> dict_get a (ascii ''secondaryKeywords'') = Inr (Some (JList (map JStr secondary_keywords)))
      \<and> dict_get a (ascii ''imageUrl'') = Inr (Some (JStr image_url))
      \<and> (\<exists>i. dict_get a (ascii ''id'') = Inr (Some (JStr i)) \<and> is_article_id (slugify u title) i)
      \<and> (\<exists>t. dict_get a (ascii ''createdAt'') = Inr (Some (JStr t)) \<and> is_iso_timestamp t)
      \<and> (\<exists>t. dict_get a (ascii ''publishedAt'') = Inr (Some (JStr t)) \<and> is_iso_timestamp t)"
    using assms(2-4)
    by (simp add: a_def new_article_fields new_id_well_formed isoformat_pattern)
  have new: "get_article (slugify u title) files' = Inr (Json_text a)"
    if "first_match (slugify u title)
          (enumerated_before (new_file_name u title clock_id) files') = None"
    using carries that unfolding files' by (rule write_then_get_new)
  have older: "\<exists>b. f = Parsed b \<and> (name, f) \<in> set files \<and> name \<noteq> new_file_name u title clock_id
      \<and> get_article (slugify u title) files' = Inr (Json_text b)"
    if "first_match (slugify u title)
          (enumerated_before (new_file_name u title clock_id) files') = Some (name, f)"
    for name f
    using that unfolding files' by (rule write_then_get_older)
  from new fields older show ?thesis
    by blast
qed

theorem save_then_get_roundtrip_witness:
  "save_article basic_ucd (ascii ''Best Gin'') (ascii ''Juniper first.'') (ascii ''A guide to gin.'')
       (ascii ''gin'') [ascii ''tonic'', ascii ''lime''] (ascii ''/images/gin.jpg'') None
       sample_clock sample_clock 1
       [(ascii ''dry-tonic-20240101120000.json'',
           Parsed (sample_article (ascii ''dry-tonic'') (ascii ''20240101120000'')
                     (ascii ''Quinine.'') (ascii ''draft''))),
        (ascii ''broken.json'', Unparseable)]
     = (Inr (Message (ascii ''Article saved successfully!'' @ [10]
              @ ascii ''ID: best-gin-20240309080507'' @ [10]
              @ ascii ''Slug: best-gin'' @ [10]
              @ ascii ''Path: articles_data/best-gin-20240309080507.json'')),
        [(ascii ''dry-tonic-20240101120000.json'',
            Parsed (sample_article (ascii ''dry-tonic'') (ascii ''20240101120000'')
                      (ascii ''Quinine.'') (ascii ''draft''))),
         (ascii ''best-gin-20240309080507.json'',
            Parsed (new_article (ascii ''best-gin-20240309080507'') (ascii ''best-gin'')
               (ascii ''Best Gin'') (ascii ''Juniper first.'') (ascii ''A guide to gin.'')
               (ascii ''gin'') [ascii ''tonic'', ascii ''lime''] (ascii ''/images/gin.jpg'') None
               (ascii ''2024-03-09T08:05:07''))),
         (ascii ''broken.json'', Unparseable)])
   \<and> valid_datetime sample_clock \<and> 1000 \<le> year sample_clock
   \<and> first_match (ascii ''best-gin'')
        (enumerated_before (ascii ''best-gin-20240309080507.json'')
          [(ascii ''dry-tonic-20240101120000.json'',
              Parsed (sample_article (ascii ''dry-tonic'') (ascii ''20240101120000'')
                        (ascii ''Quinine.'') (ascii ''draft''))),
           (ascii ''best-gin-20240309080507.json'',
              Parsed (new_article (ascii ''best-gin-20240309080507'') (ascii ''best-gin'')
                 (ascii ''Best Gin'') (ascii ''Juniper first.'') (ascii ''A guide to gin.'')
                 (ascii ''gin'') [ascii ''tonic'', ascii ''lime''] (ascii ''/images/gin.jpg'') None
                 (ascii ''2024-03-09T08:05:07''))),
           (ascii ''broken.json'', Unparseable)]) = None
   \<and> (\<exists>a. get_article (ascii ''best-gin'')
            [(ascii ''dry-tonic-20240101120000.json'',
                Parsed (sample_article (ascii ''dry-tonic'') (ascii ''20240101120000'')
                          (ascii ''Quinine.'') (ascii ''draft''))),
             (ascii ''best-gin-20240309080507.json'',
                Parsed (new_article (ascii ''best-gin-20240309080507'') (ascii ''best-gin'')
                   (ascii ''Best Gin'') (ascii ''Juniper first.'') (ascii ''A guide to gin.'')
                   (ascii ''gin'') [ascii ''tonic'', ascii ''lime''] (ascii ''/images/gin.jpg'') None
                   (ascii ''2024-03-09T08:05:07''))),
             (ascii ''broken.json'', Unparseable)] = Inr (Json_text a)
          \<and> dict_get a (ascii ''title'') = Inr (Some (JStr (ascii ''Best Gin'')))
          \<and> dict_get a (ascii ''metaDescription'') = Inr (Some (JStr (ascii ''A guide to gin.'')))
          \<and> dict_get a (ascii ''content'') = Inr (Some (JStr (ascii ''Juniper first.'')))
          \<and> dict_get a (ascii ''primaryKeyword'') = Inr (Some (JStr (ascii ''gin'')))
          \<and> dict_get a (ascii ''secondaryKeywords'')
              = Inr (Some (JList [JStr (ascii ''tonic''), JStr (ascii ''lime'')]))
          \<and> dict_get a (ascii ''imageUrl'') = Inr (Some (JStr (ascii ''/images/gin.jpg'')))
          \<and> (\<exists>i. dict_get a (ascii ''id'') = Inr (Some (JStr i))
                \<and> is_article_id (ascii ''best-gin'') i)
          \<and> (\<exists>t. dict_get a (ascii ''createdAt'') = Inr (Some (JStr t)) \<and> is_iso_timestamp t)
          \<and> (\<exists>t. dict_get a (ascii ''publishedAt'') = Inr (Some (JStr t)) \<and> is_iso_timestamp t))
   \<and> save_article basic_ucd (ascii ''Best Gin'') (ascii ''New body.'') (ascii ''A guide to gin.'')
       (ascii ''gin'') [ascii ''tonic'', ascii ''lime''] (ascii ''/images/gin.jpg'') None
       sample_clock sample_clock 1
       [(ascii ''best-gin-20240101120000.json'',
           Parsed (sample_article (ascii ''best-gin'') (ascii ''20240101120000'')
                     (ascii ''Old body.'') (ascii ''published'')))]
     = (Inr (Message (ascii ''Article saved successfully!'' @ [10]
              @ ascii ''ID: best-gin-20240309080507'' @ [10]
              @ ascii ''Slug: best-gin'' @ [10]
              @ ascii ''Path: articles_data/best-gin-20240309080507.json'')),
        [(ascii ''best-gin-20240101120000.json'',
            Parsed (sample_article (ascii ''best-gin'') (ascii ''20240101120000'')
                      (ascii ''Old body.'') (ascii ''published''))),
         (ascii ''best-gin-20240309080507.json'',
            Parsed (new_article (ascii ''best-gin-20240309080507'') (ascii ''best-gin'')
               (ascii ''Best Gin'') (ascii ''New body.'') (ascii ''A guide to gin.'')
               (ascii ''gin'') [ascii ''tonic'', ascii ''lime''] (ascii ''/images/gin.jpg'') None
               (ascii ''2024-03-09T08:05:07'')))])
   \<and> first_match (ascii ''best-gin'')
        (enumerated_before (ascii ''best-gin-20240309080507.json'')
          [(ascii ''best-gin-20240101120000.json'',
              Parsed (sample_article (ascii ''best-gin'') (ascii ''20240101120000'')
                        (ascii ''Old body.'') (ascii ''published''))),
           (ascii ''best-gin-20240309080507.json'',
              Parsed (new_article (ascii ''best-gin-20240309080507'') (ascii ''best-gin'')
                 (ascii ''Best Gin'') (ascii ''New body.'') (ascii ''A guide to gin.'')
                 (ascii ''gin'') [ascii ''tonic'', ascii ''lime''] (ascii ''/images/gin.jpg'') None
                 (ascii ''2024-03-09T08:05:07'')))])
     = Some (ascii ''best-gin-20240101120000.json'',
             Parsed (sample_article (ascii ''best-gin'') (ascii ''20240101120000'')
                       (ascii ''Old body.'') (ascii ''published'')))
   \<and> get_article (ascii ''best-gin'')
        [(ascii ''best-gin-20240101120000.json'',
            Parsed (sample_article (ascii ''best-gin'') (ascii ''20240101120000'')
                      (ascii ''Old body.'') (ascii ''published''))),
         (ascii ''best-gin-20240309080507.json'',
            Parsed (new_article (ascii ''best-gin-20240309080507'') (ascii ''best-gin'')
               (ascii ''Best Gin'') (ascii ''New body.'') (ascii ''A guide to gin.'')
               (ascii ''gin'') [ascii ''tonic'', ascii ''lime''] (ascii ''/images/gin.jpg'') None
               (ascii ''2024-03-09T08:05:07'')))]
     = Inr (Json_text (sample_article (ascii ''best-gin'') (ascii ''20240101120000'')
                         (ascii ''Old body.'') (ascii ''published'')))"
proof -
  define dir_a where "dir_a =
       [(ascii ''dry-tonic-20240101120000.json'',
           Parsed (sample_article (ascii ''dry-tonic'') (ascii ''20240101120000'')
                     (ascii ''Quinine.'') (ascii ''draft''))),
        (ascii ''best-gin-20240309080507.json'',
           Parsed (new_article (ascii ''best-gin-20240309080507'') (ascii ''best-gin'')
              (ascii ''Best Gin'') (ascii ''Juniper first.'') (ascii ''A guide to gin.'')
              (ascii ''gin'') [ascii ''tonic'', ascii ''lime''] (ascii ''/images/gin.jpg'') None
              (ascii ''2024-03-09T08:05:07''))),
        (ascii ''broken.json'', Unparseable)]"
  define dir_b where "dir_b =
       [(ascii ''best-gin-20240101120000.json'',
           Parsed (sample_article (ascii ''best-gin'') (ascii ''20240101120000'')
                     (ascii ''Old body.'') (ascii ''published''))),
        (ascii ''best-gin-20240309080507.json'',
           Parsed (new_article (ascii ''best-gin-20240309080507'') (ascii ''best-gin'')
              (ascii ''Best Gin'') (ascii ''New body.'') (ascii ''A guide to gin.'')
              (ascii ''gin'') [ascii ''tonic'', ascii ''lime''] (ascii ''/images/gin.jpg'') None
              (ascii ''2024-03-09T08:05:07'')))]"
  have saved_a: "save_article basic_ucd (ascii ''Best Gin'') (ascii ''Juniper first.'')
       (ascii ''A guide to gin.'') (ascii ''gin'') [ascii ''tonic'', ascii ''lime'']
       (ascii ''/images/gin.jpg'') None sample_clock sample_clock 1
       [(ascii ''dry-tonic-20240101120000.json'',
           Parsed (sample_article (ascii ''dry-tonic'') (ascii ''20240101120000'')
                     (ascii ''Quinine.'') (ascii ''draft''))),
        (ascii ''broken.json'', Unparseable)]
     = (Inr (Message (ascii ''Article saved successfully!'' @ [10]
              @ ascii ''ID: best-gin-20240309080507'' @ [10]
              @ ascii ''Slug: best-gin'' @ [10]
              @ ascii ''Path: articles_data/best-gin-20240309080507.json'')), dir_a)"
    by (simp add: save_best_gin write_file_def dir_a_def)
  have saved_b: "save_article basic_ucd (ascii ''Best Gin'') (ascii ''New body.'')
       (ascii ''A guide to gin.'') (ascii ''gin'') [ascii ''tonic'', ascii ''lime'']
       (ascii ''/images/gin.jpg'') None sample_clock sample_clock 1
       [(ascii ''best-gin-20240101120000.json'',
           Parsed (sample_article (ascii ''best-gin'') (ascii ''20240101120000'')
                     (ascii ''Old body.'') (ascii ''published'')))]
     = (Inr (Message (ascii ''Article saved successfully!'' @ [10]
              @ ascii ''ID: best-gin-20240309080507'' @ [10]
              @ ascii ''Slug: best-gin'' @ [10]
              @ ascii ''Path: articles_data/best-gin-20240309080507.json'')), dir_b)"
    by (simp add: save_best_gin write_file_def dir_b_def)
  have none_a: "first_match (ascii ''best-gin'')
      (enumerated_before (ascii ''best-gin-20240309080507.json'') dir_a) = None"
    by (simp add: dir_a_def enumerated_before_def first_match_def sample_article_def)
  have some_b: "first_match (ascii ''best-gin'')
      (enumerated_before (ascii ''best-gin-20240309080507.json'') dir_b)
     = Some (ascii ''best-gin-20240101120000.json'',
             Parsed (sample_article (ascii ''best-gin'') (ascii ''20240101120000'')
                       (ascii ''Old body.'') (ascii ''published'')))"
    by (simp add: dir_b_def enumerated_before_def first_match_def sample_article_def)
  have list: "map JStr [ascii ''tonic'', ascii ''lime''] = [JStr (ascii ''tonic''), JStr (ascii ''lime'')]"
    by simp
  note a = save_then_get_roundtrip [OF saved_a sample_clock_valid sample_clock_valid(1),
      unfolded slugify_best_gin_basic new_file_name_best_gin list]
  note b = save_then_get_roundtrip [OF saved_b sample_clock_valid sample_clock_valid(1),
      unfolded slugify_best_gin_basic new_file_name_best_gin list]
  from a none_a have get_a: "\<exists>a. get_article (ascii ''best-gin'') dir_a = Inr (Json_text a)
          \<and> dict_get a (ascii ''title'') = Inr (Some (JStr (ascii ''Best Gin'')))
          \<and> dict_get a (ascii ''metaDescription'') = Inr (Some (JStr (ascii ''A guide to gin.'')))
          \<and> dict_get a (ascii ''content'') = Inr (Some (JStr (ascii ''Juniper first.'')))
          \<and> dict_get a (ascii ''primaryKeyword'') = Inr (Some (JStr (ascii ''gin'')))
          \<and> dict_get a (ascii ''secondaryKeywords'')
              = Inr (Some (JList [JStr (ascii ''tonic''), JStr (ascii ''lime'')]))
          \<and> dict_get a (ascii ''imageUrl'') = Inr (Some (JStr (ascii ''/images/gin.jpg'')))
          \<and> (\<exists>i. dict_get a (ascii ''id'') = Inr (Some (JStr i))
                \<and> is_article_id (ascii ''best-gin'') i)
          \<and> (\<exists>t. dict_get a (ascii ''createdAt'') = Inr (Some (JStr t)) \<and> is_iso_timestamp t)
          \<and> (\<exists>t. dict_get a (ascii ''publishedAt'') = Inr (Some (JStr t)) \<and> is_iso_timestamp t)"
    by blast
  from b some_b have get_b: "get_article (ascii ''best-gin'') dir_b
     = Inr (Json_text (sample_article (ascii ''best-gin'') (ascii ''20240101120000'')
                         (ascii ''Old body.'') (ascii ''published'')))"
    by blast
  from saved_a saved_b none_a some_b get_a get_b sample_clock_valid show ?thesis
    unfolding dir_a_def dir_b_def by blast
qed

text \<open>
  The claim as the specification words it fails when the directory already holds a
  record with the same slug that is enumerated before the new file: \<open>save_article\<close>
  returns, and \<open>get_article\<close> returns the old record, whose content is not the one
  passed in.
\<close>

theorem save_then_get_returns_older_record:
  "fst (save_article basic_ucd (ascii ''Best Gin'') (ascii ''New body.'') (ascii ''A guide to gin.'')
         (ascii ''gin'') [ascii ''tonic'', ascii ''lime''] (ascii ''/images/gin.jpg'') None
         sample_clock sample_clock 1
         [(ascii ''best-gin-20240101120000.json'',
             Parsed (sample_article (ascii ''best-gin'') (ascii ''20240101120000'')
                       (ascii ''Old body.'') (ascii ''published'')))])
     = Inr (Message (ascii ''Article saved successfully!'' @ [10]
              @ ascii ''ID: best-gin-20240309080507'' @ [10]
              @ ascii ''Slug: best-gin'' @ [10]
              @ ascii ''Path: articles_data/best-gin-20240309080507.json''))
   \<and> get_article (ascii ''best-gin'')
       (snd (save_article basic_ucd (ascii ''Best Gin'') (ascii ''New body.'')
               (ascii ''A guide to gin.'') (ascii ''gin'') [ascii ''tonic'', ascii ''lime'']
               (ascii ''/images/gin.jpg'') None sample_clock sample_clock 1
               [(ascii ''best-gin-20240101120000.json'',
                   Parsed (sample_article (ascii ''best-gin'') (ascii ''20240101120000'')
                             (ascii ''Old body.'') (ascii ''published'')))]))
     = Inr (Json_text (sample_article (ascii ''best-gin'') (ascii ''20240101120000'')
                         (ascii ''Old body.'') (ascii ''published'')))
   \<and> dict_get (sample_article (ascii ''best-gin'') (ascii ''20240101120000'')
                 (ascii ''Old body.'') (ascii ''published'')) (ascii ''content'')
     = Inr (Some (JStr (ascii ''Old body.'')))
   \<and> ascii ''Old body.'' \<noteq> ascii ''New body.''"
  by (simp add: save_best_gin write_file_def sample_article_def)

subsection \<open>Listing\<close>




lemma stored_records_parseable: "stored_records (filter parseable files) = stored_records files"
  by (induction files rule: stored_records.induct) simp_all











text \<open>
  Claim C1, at a limit of zero. The directory holds one record; \<open>get_articles("all", 0)\<close>
  and \<open>get_articles("all", -3)\<close> return a listing of one record, where the claim and the
  docstring (\<open>limit: Maximum number of articles to return\<close>) allow none.
\<close>

theorem get_articles_limit_zero_returns_one:
  "get_articles (ascii ''all'') 0
     [(ascii ''best-gin-20240101120000.json'',
         Parsed (sample_article (ascii ''best-gin'') (ascii ''20240101120000'')
                   (ascii ''Juniper.'') (ascii ''published'')))]
     = Inr (Listing
         [\<lparr>line_status = JStr (ascii ''published''), line_title = JStr (ascii ''Best Gin''),
           line_slug = JStr (ascii ''best-gin''), line_keyword = JStr (ascii ''gin''),
           line_created = JStr (ascii ''2024-01-01'')\<rparr>])
   \<and> get_articles (ascii ''all'') (- 3)
     [(ascii ''best-gin-20240101120000.json'',
         Parsed (sample_article (ascii ''best-gin'') (ascii ''20240101120000'')
                   (ascii ''Juniper.'') (ascii ''published'')))]
     = Inr (Listing
         [\<lparr>line_status = JStr (ascii ''published''), line_title = JStr (ascii ''Best Gin''),
           line_slug = JStr (ascii ''best-gin''), line_keyword = JStr (ascii ''gin''),
           line_created = JStr (ascii ''2024-01-01'')\<rparr>])"
  by (simp add: get_articles_def sorted_reverse_def status_matches_def sample_article_def
      format_line_def dict_get_default_def ascii_def)



end
